theory Spec2Isabelle
  imports Complex_Main
begin

section \<open>The longitudinal planner of selfdrive/controls/lib/longitudinal\_planner.py\<close>

text \<open>
  The planner works on Python floats. They are modelled as \<^typ>\<open>real\<close>: rounding is
  outside this development, and so are inputs that are infinite or NaN. Every raise the
  source can perform (a float division by zero, a float power that overflows, a missing
  dictionary key, \<open>min\<close> of an empty dictionary) is a branch of the model that returns an
  \<open>error\<close>. The planner's own arithmetic uses only \<open>+\<close>, \<open>-\<close>, \<open>*\<close> and divisions by
  nonzero constants, none of which raises; \<open>limit_accel_in_turns\<close> also uses \<open>**\<close>, a
  division by a product of inputs and \<open>math.sqrt\<close>, which can raise, so there the range of
  a double is modelled as well.
\<close>

datatype error = ZeroDivisionError | OverflowError | KeyError | ValueError

subsection \<open>Constants and lookup tables\<close>

definition LON_MPC_STEP :: real where
  "LON_MPC_STEP = 0.2"

definition AWARENESS_DECEL :: real where
  "AWARENESS_DECEL = -0.2"

definition A_CRUISE_MIN_V :: "real list" where
  "A_CRUISE_MIN_V = [-2.0, -1.5, -1.0, -0.7, -0.5]"

definition A_CRUISE_MIN_BP :: "real list" where
  "A_CRUISE_MIN_BP = [0.0, 5.0, 10.0, 20.0, 55.0]"

definition A_CRUISE_MAX_V :: "real list" where
  "A_CRUISE_MAX_V = [2.0, 2.0, 1.5, 0.5, 0.3]"

definition A_CRUISE_MAX_V_ECO :: "real list" where
  "A_CRUISE_MAX_V_ECO = [0.8, 0.9, 1.0, 0.4, 0.2]"

definition A_CRUISE_MAX_V_SPORT :: "real list" where
  "A_CRUISE_MAX_V_SPORT = [3.0, 3.5, 3.0, 2.0, 2.0]"

definition A_CRUISE_MAX_V_FOLLOWING :: "real list" where
  "A_CRUISE_MAX_V_FOLLOWING = [1.6, 1.4, 1.4, 0.7, 0.3]"

definition A_CRUISE_MAX_BP :: "real list" where
  "A_CRUISE_MAX_BP = [0, 5, 10, 20, 55]"

definition A_TOTAL_MAX_V :: "real list" where
  "A_TOTAL_MAX_V = [3.5, 4.0, 5.0]"

definition A_TOTAL_MAX_BP :: "real list" where
  "A_TOTAL_MAX_BP = [0, 25, 55]"

definition A_TOTAL_MAX_V_SOC :: "real list" where
  "A_TOTAL_MAX_V_SOC = [1.7, 3.2]"

definition A_TOTAL_MAX_BP_SOC :: "real list" where
  "A_TOTAL_MAX_BP_SOC = [20, 40]"

text \<open>
  Modelled from the spec: \<open>CV.DEG_TO_RAD\<close> of selfdrive/config.py, which is not under
  src/. The spec names the product \<open>angle_steers * CV.DEG_TO_RAD\<close> the angle in radians.
\<close>

definition DEG_TO_RAD :: real where
  "DEG_TO_RAD = pi / 180"

text \<open>
  Modelled from the spec: \<open>interp\<close> of common/numpy\_fast.py, which is not under src/.
  The spec describes it as piecewise-linear interpolation over fixed breakpoints; as
  \<open>numpy.interp\<close> does, the first value is held below the first breakpoint and the last
  value above the last one. \<open>interp_from x x0 y0 xs ys\<close> is the scan to the right of the
  breakpoint \<open>x0\<close> (with value \<open>y0\<close>) that \<open>x\<close> has already passed. Every table of this
  file is non-empty and has one value per breakpoint, so the last equations of the two
  functions are never used.
\<close>

fun interp_from :: "real \<Rightarrow> real \<Rightarrow> real \<Rightarrow> real list \<Rightarrow> real list \<Rightarrow> real" where
  "interp_from x x0 y0 (x1 # xs) (y1 # ys) =
     (if x \<le> x1 then (x - x0) * (y1 - y0) / (x1 - x0) + y0
      else interp_from x x1 y1 xs ys)"
| "interp_from x x0 y0 _ _ = y0"

fun interp :: "real \<Rightarrow> real list \<Rightarrow> real list \<Rightarrow> real" where
  "interp x (x0 # xs) (y0 # ys) = (if x \<le> x0 then y0 else interp_from x x0 y0 xs ys)"
| "interp x _ _ = 0"

subsection \<open>Acceleration limits\<close>

text \<open>
  \<open>calc_cruise_accel_limits\<close>: the driving-mode selector is an integer (\<open>int(accelMode)\<close> is
  then the identity); the index into the three mode curves is \<open>min(max(mode, 0), 2)\<close>.
  The two-row array the source returns is the pair \<open>(a_cruise_min, a_cruise_max)\<close>. The
  \<open>print\<close> of the mode has no effect on the result and is left out.
\<close>

definition A_CRUISE_MAX_V_MODE_LIST :: "real list list" where
  "A_CRUISE_MAX_V_MODE_LIST = [A_CRUISE_MAX_V_ECO, A_CRUISE_MAX_V, A_CRUISE_MAX_V_SPORT]"

definition A_CRUISE_MAX_V_MODE_LIST_INDEX :: "int \<Rightarrow> nat" where
  "A_CRUISE_MAX_V_MODE_LIST_INDEX accelMode =
     nat (min (max accelMode 0) (int (length A_CRUISE_MAX_V_MODE_LIST) - 1))"

definition calc_cruise_accel_limits :: "real \<Rightarrow> bool \<Rightarrow> int \<Rightarrow> real \<times> real" where
  "calc_cruise_accel_limits v_ego following accelMode =
     (let a_cruise_min = interp v_ego A_CRUISE_MIN_BP A_CRUISE_MIN_V;
          a_cruise_max =
            (if following then interp v_ego A_CRUISE_MAX_BP A_CRUISE_MAX_V_FOLLOWING
             else interp v_ego A_CRUISE_MAX_BP
                    (A_CRUISE_MAX_V_MODE_LIST ! A_CRUISE_MAX_V_MODE_LIST_INDEX accelMode))
      in (a_cruise_min, a_cruise_max))"

record kegman_conf =
  accelerationMode :: int
  slowOnCurves :: int

record CarParams =
  minSpeedCan :: real
  startAccel :: real
  steerRatio :: real
  wheelbase :: real
  radarTimeStep :: real

subsection \<open>Floats with the range of a double\<close>

text \<open>
  The value of a Python float expression: a finite number, an infinity or NaN. Each
  operation is exact while its result stays inside the range of an IEEE-754 double. A
  result of magnitude at least \<open>2^1024 - 2^970\<close> (what rounds beyond the largest double)
  becomes an infinity, and a result of magnitude at most \<open>2^(-1075)\<close> (what rounds below the
  smallest subnormal) becomes zero. The sign of a zero is not kept; nothing below
  depends on it.
\<close>

datatype pyfloat = Fin real | PInf | NInf | NaN

definition DBL_OVERFLOW :: real where
  "DBL_OVERFLOW = 2 ^ 1024 - 2 ^ 970"

definition DBL_UNDERFLOW :: real where
  "DBL_UNDERFLOW = 1 / 2 ^ 1075"

definition fl :: "real \<Rightarrow> pyfloat" where
  "fl x = (if DBL_OVERFLOW \<le> x then PInf
           else if x \<le> - DBL_OVERFLOW then NInf
           else if \<bar>x\<bar> \<le> DBL_UNDERFLOW then Fin 0
           else Fin x)"

text \<open>\<open>a * b\<close>: never raises; an infinity times zero is NaN.\<close>

fun py_mul :: "pyfloat \<Rightarrow> pyfloat \<Rightarrow> pyfloat" where
  "py_mul (Fin a) (Fin b) = fl (a * b)"
| "py_mul NaN _ = NaN"
| "py_mul _ NaN = NaN"
| "py_mul (Fin a) PInf = (if a = 0 then NaN else if 0 < a then PInf else NInf)"
| "py_mul (Fin a) NInf = (if a = 0 then NaN else if 0 < a then NInf else PInf)"
| "py_mul PInf (Fin b) = (if b = 0 then NaN else if 0 < b then PInf else NInf)"
| "py_mul NInf (Fin b) = (if b = 0 then NaN else if 0 < b then NInf else PInf)"
| "py_mul PInf PInf = PInf"
| "py_mul PInf NInf = NInf"
| "py_mul NInf PInf = NInf"
| "py_mul NInf NInf = PInf"

text \<open>\<open>a / b\<close>: a zero divisor raises whatever the dividend is; an overflow does not.\<close>

fun py_div :: "pyfloat \<Rightarrow> pyfloat \<Rightarrow> error + pyfloat" where
  "py_div (Fin a) (Fin b) = (if b = 0 then Inl ZeroDivisionError else Inr (fl (a / b)))"
| "py_div PInf (Fin b) =
     (if b = 0 then Inl ZeroDivisionError else Inr (if 0 < b then PInf else NInf))"
| "py_div NInf (Fin b) =
     (if b = 0 then Inl ZeroDivisionError else Inr (if 0 < b then NInf else PInf))"
| "py_div NaN (Fin b) = (if b = 0 then Inl ZeroDivisionError else Inr NaN)"
| "py_div _ NaN = Inr NaN"
| "py_div (Fin a) _ = Inr (Fin 0)"
| "py_div _ _ = Inr NaN"

text \<open>
  \<open>a ** 2\<close>: the one arithmetic operator that raises on overflow. The square of an
  infinity is infinity and raises nothing.
\<close>

fun py_pow2 :: "pyfloat \<Rightarrow> error + pyfloat" where
  "py_pow2 (Fin a) = (if DBL_OVERFLOW \<le> a\<^sup>2 then Inl OverflowError else Inr (fl (a\<^sup>2)))"
| "py_pow2 PInf = Inr PInf"
| "py_pow2 NInf = Inr PInf"
| "py_pow2 NaN = Inr NaN"

fun py_sub :: "pyfloat \<Rightarrow> pyfloat \<Rightarrow> pyfloat" where
  "py_sub (Fin a) (Fin b) = fl (a - b)"
| "py_sub NaN _ = NaN"
| "py_sub _ NaN = NaN"
| "py_sub (Fin a) PInf = NInf"
| "py_sub (Fin a) NInf = PInf"
| "py_sub PInf (Fin b) = PInf"
| "py_sub NInf (Fin b) = NInf"
| "py_sub PInf NInf = PInf"
| "py_sub NInf PInf = NInf"
| "py_sub PInf PInf = NaN"
| "py_sub NInf NInf = NaN"

text \<open>\<open>a < b\<close>: false as soon as one side is NaN.\<close>

fun py_less :: "pyfloat \<Rightarrow> pyfloat \<Rightarrow> bool" where
  "py_less (Fin a) (Fin b) = (a < b)"
| "py_less NaN _ = False"
| "py_less _ NaN = False"
| "py_less _ NInf = False"
| "py_less PInf _ = False"
| "py_less _ _ = True"

text \<open>
  The builtins \<open>max(a, b)\<close> and \<open>min(a, b)\<close> on two arguments: the first argument is kept
  unless the second is strictly greater (strictly less).
\<close>

definition py_max :: "pyfloat \<Rightarrow> pyfloat \<Rightarrow> pyfloat" where
  "py_max a b = (if py_less a b then b else a)"

definition py_min :: "pyfloat \<Rightarrow> pyfloat \<Rightarrow> pyfloat" where
  "py_min a b = (if py_less b a then b else a)"

text \<open>\<open>math.sqrt\<close>: a negative argument raises \<open>ValueError\<close>; NaN passes through.\<close>

fun math_sqrt :: "pyfloat \<Rightarrow> error + pyfloat" where
  "math_sqrt (Fin a) = (if a < 0 then Inl ValueError else Inr (Fin (sqrt a)))"
| "math_sqrt PInf = Inr PInf"
| "math_sqrt NInf = Inl ValueError"
| "math_sqrt NaN = Inr NaN"

subsection \<open>The limit in turns\<close>

text \<open>
  \<open>limit_accel_in_turns\<close>: the first argument is the module-level configuration object the
  source reads \<open>slowOnCurves\<close> from. The inputs are finite floats; the second component of
  the result is the value of \<open>min(a_target[1], a_x_allowed)\<close>. The operations are taken in
  the order Python evaluates them: the numerator of \<open>a_y\<close> from left to right, then the
  product \<open>CP.steerRatio * CP.wheelbase\<close>, then the division; in line 78 the square of
  \<open>a_total_max\<close> before the square of \<open>a_y\<close>.
\<close>

definition limit_accel_in_turns ::
    "kegman_conf \<Rightarrow> real \<Rightarrow> real \<Rightarrow> real \<times> real \<Rightarrow> CarParams \<Rightarrow> error + real \<times> pyfloat" where
  "limit_accel_in_turns kegman v_ego angle_steers a_target CP =
     (let a_total_max =
            (if slowOnCurves kegman \<noteq> 0 then interp v_ego A_TOTAL_MAX_BP_SOC A_TOTAL_MAX_V_SOC
             else interp v_ego A_TOTAL_MAX_BP A_TOTAL_MAX_V)
      in case py_pow2 (Fin v_ego) of
           Inl e \<Rightarrow> Inl e
         | Inr v2 \<Rightarrow>
        (case py_div (py_mul (py_mul v2 (Fin angle_steers)) (Fin DEG_TO_RAD))
                     (py_mul (Fin (steerRatio CP)) (Fin (wheelbase CP))) of
           Inl e \<Rightarrow> Inl e
         | Inr a_y \<Rightarrow>
        (case py_pow2 (Fin a_total_max) of
           Inl e \<Rightarrow> Inl e
         | Inr t2 \<Rightarrow>
        (case py_pow2 a_y of
           Inl e \<Rightarrow> Inl e
         | Inr y2 \<Rightarrow>
        (case math_sqrt (py_max (py_sub t2 y2) (Fin 0)) of
           Inl e \<Rightarrow> Inl e
         | Inr a_x_allowed \<Rightarrow>
             Inr (fst a_target, py_min (Fin (snd a_target)) a_x_allowed))))))"

subsection \<open>The planner's data\<close>

datatype Source = cruiseCoast | cruiseGas | cruiseBrake | mpc1 | mpc2

datatype LongCtrlState = off | pid | stopping | starting

text \<open>
  The fields of a \<open>LongitudinalMpc\<close> object that the planner reads. The class is not under
  src/; \<open>mpc_solution\<close> stands for the solver's buffers and everything else the object
  keeps, and is opaque here.
\<close>

record 'm LongitudinalMpc =
  prev_lead_status :: bool
  new_lead :: bool
  v_mpc :: real
  a_mpc :: real
  v_mpc_future :: real
  mpc_solution :: 'm

record CarState =
  vEgo :: real
  aEgo :: real
  gasPressed :: bool
  brakePressed :: bool
  leftBlinker :: bool
  rightBlinker :: bool
  steeringAngleDeg :: real

record Actuators =
  gas :: real
  brake :: real

record ControlsState =
  longControlState :: LongCtrlState
  vCruise :: real
  forceDecel :: bool
  active :: bool

text \<open>A radar lead; \<open>leadFcw\<close> is the message's field \<open>fcw\<close>.\<close>

record Lead =
  status :: bool
  dRel :: real
  vLeadK :: real
  aLeadK :: real
  vLead :: real
  yRel :: real
  vLat :: real
  leadFcw :: bool

text \<open>
  What one call of \<open>update\<close> reads from outside the planner: the messages of \<open>sm\<close>, the
  \<open>CP\<close> argument, the clock (\<open>sec_since_boot()\<close>) and the configuration that
  \<open>kegman_conf()\<close> would load at that moment.
\<close>

record SubMaster =
  carState :: CarState
  actuators :: Actuators
  controlsState :: ControlsState
  leadOne :: Lead
  leadTwo :: Lead
  CP_arg :: CarParams
  cur_time :: real
  kegman_file :: kegman_conf

text \<open>
  The collaborators whose code is not under src/, taken as parameters: the trajectory
  smoother, the two operations of a lead tracker, the collision-warning checker, the
  constructors the planner calls, and three constants of other modules.
\<close>

record ('m, 'f) ext =
  speed_smoother ::
    "real \<Rightarrow> real \<Rightarrow> real \<Rightarrow> real \<Rightarrow> real \<Rightarrow> real \<Rightarrow> real \<Rightarrow> real \<Rightarrow> real \<times> real"
  mpc_new :: "nat \<Rightarrow> 'm LongitudinalMpc"
  mpc_set_cur_state :: "real \<Rightarrow> real \<Rightarrow> 'm LongitudinalMpc \<Rightarrow> 'm LongitudinalMpc"
  mpc_update :: "CarState \<Rightarrow> Lead \<Rightarrow> 'm LongitudinalMpc \<Rightarrow> 'm LongitudinalMpc"
  FCWChecker_new :: 'f
  FCWChecker_reset_lead :: "real \<Rightarrow> 'f \<Rightarrow> 'f"
  FCWChecker_update ::
    "'m \<Rightarrow> real \<Rightarrow> bool \<Rightarrow> real \<Rightarrow> real \<Rightarrow> real \<Rightarrow> real \<Rightarrow> real \<Rightarrow> real \<Rightarrow> real \<Rightarrow> bool \<Rightarrow> bool
       \<Rightarrow> 'f \<Rightarrow> bool \<times> 'f"
  V_CRUISE_MAX :: real
  KPH_TO_MS :: real
  MPH_TO_MS :: real

text \<open>
  The planner object. \<open>self_CP\<close>, \<open>self_mpc1\<close> and \<open>self_mpc2\<close> are the attributes
  \<open>self.CP\<close>, \<open>self.mpc1\<close> and \<open>self.mpc2\<close>. The attributes \<open>path_x\<close> and \<open>params\<close> are
  written once in the constructor and never read in this file; they are left out.
\<close>

record ('m, 'f) Planner =
  self_CP :: CarParams
  self_mpc1 :: "'m LongitudinalMpc"
  self_mpc2 :: "'m LongitudinalMpc"
  v_acc_start :: real
  a_acc_start :: real
  v_acc_next :: real
  a_acc_next :: real
  v_acc :: real
  v_acc_future :: real
  a_acc :: real
  v_cruise :: real
  a_cruise :: real
  source :: Source
  cruise_source :: Source
  fcw_checker :: 'f
  fcw :: bool
  kegman :: kegman_conf
  mpc_frame :: int
  first_loop :: bool
  coast_enabled :: bool

definition COAST_SPEED :: "('m, 'f) ext \<Rightarrow> real" where
  "COAST_SPEED E = 10.0 * MPH_TO_MS E"

definition Planner_init :: "('m, 'f) ext \<Rightarrow> kegman_conf \<Rightarrow> CarParams \<Rightarrow> ('m, 'f) Planner" where
  "Planner_init E conf CP =
     \<lparr> self_CP = CP,
       self_mpc1 = mpc_new E 1,
       self_mpc2 = mpc_new E 2,
       v_acc_start = 0, a_acc_start = 0, v_acc_next = 0, a_acc_next = 0,
       v_acc = 0, v_acc_future = 0, a_acc = 0, v_cruise = 0, a_cruise = 0,
       source = cruiseCoast, cruise_source = cruiseCoast,
       fcw_checker = FCWChecker_new E, fcw = False,
       kegman = conf, mpc_frame = 0, first_loop = True,
       coast_enabled = True \<rparr>"

subsection \<open>Python dictionaries with insertion order\<close>

text \<open>
  \<open>d[k] = v\<close> on an insertion-ordered dictionary: an existing key keeps its place and
  takes the new value, a new key goes to the end.
\<close>

fun dict_set :: "('k \<times> 'v) list \<Rightarrow> 'k \<Rightarrow> 'v \<Rightarrow> ('k \<times> 'v) list" where
  "dict_set [] k v = [(k, v)]"
| "dict_set ((k', v') # d) k v = (if k' = k then (k, v) # d else (k', v') # dict_set d k v)"

text \<open>
  \<open>min(d, key=d.get)\<close>: the keys are visited in insertion order and the best one so far
  is replaced only by a key with a strictly smaller value; an empty dictionary raises.
\<close>

fun min_scan :: "'k \<times> real \<Rightarrow> ('k \<times> real) list \<Rightarrow> 'k" where
  "min_scan best [] = fst best"
| "min_scan best (kv # d) = min_scan (if snd kv < snd best then kv else best) d"

definition dict_min_key :: "('k \<times> real) list \<Rightarrow> error + 'k" where
  "dict_min_key d = (case d of [] \<Rightarrow> Inl ValueError | kv # d' \<Rightarrow> Inr (min_scan kv d'))"

definition dict_get :: "('k \<times> 'v) list \<Rightarrow> 'k \<Rightarrow> error + 'v" where
  "dict_get d k = (case map_of d k of None \<Rightarrow> Inl KeyError | Some v \<Rightarrow> Inr v)"

subsection \<open>Arbitration: choose\_solution\<close>

definition solutions :: "('m, 'f) Planner \<Rightarrow> (Source \<times> real) list" where
  "solutions self =
     (let d = [(cruise_source self, v_cruise self)];
          d = (if prev_lead_status (self_mpc1 self) then dict_set d mpc1 (v_mpc (self_mpc1 self))
               else d);
          d = (if prev_lead_status (self_mpc2 self) then dict_set d mpc2 (v_mpc (self_mpc2 self))
               else d)
      in d)"

definition choose_solution ::
    "('m, 'f) Planner \<Rightarrow> real \<Rightarrow> bool \<Rightarrow> error + ('m, 'f) Planner" where
  "choose_solution self v_cruise_setpoint enabled =
     (case (if enabled then
              (case dict_min_key (solutions self) of
                 Inl e \<Rightarrow> Inl e
               | Inr slowest \<Rightarrow>
                   let self = self\<lparr>source := slowest\<rparr>
                   in Inr (if slowest = mpc1 then
                             self\<lparr>v_acc := v_mpc (self_mpc1 self), a_acc := a_mpc (self_mpc1 self)\<rparr>
                           else if slowest = mpc2 then
                             self\<lparr>v_acc := v_mpc (self_mpc2 self), a_acc := a_mpc (self_mpc2 self)\<rparr>
                           else if slowest = cruise_source self then
                             self\<lparr>v_acc := v_cruise self, a_acc := a_cruise self\<rparr>
                           else self))
            else Inr self) of
        Inl e \<Rightarrow> Inl e
      | Inr self \<Rightarrow>
          Inr (self\<lparr>v_acc_future :=
                 min (v_mpc_future (self_mpc1 self))
                   (min (v_mpc_future (self_mpc2 self)) v_cruise_setpoint)\<rparr>))"

subsection \<open>The cruise strategy: choose\_cruise\<close>

text \<open>
  The limits arrive as the two lists of the source, here pairs: \<open>accel_limits_turns\<close> is
  \<open>(a_min, a_max)\<close> and \<open>jerk_limits\<close> is \<open>(jerk_min, jerk_max)\<close>. The function returns
  the pair of the selected candidate together with the updated planner, or \<open>KeyError\<close>
  when \<open>cruise_source\<close> is no key of the three-entry dictionary.
\<close>

definition choose_cruise ::
    "('m, 'f) ext \<Rightarrow> ('m, 'f) Planner \<Rightarrow> real \<Rightarrow> real \<Rightarrow> real \<Rightarrow> real \<times> real \<Rightarrow> real \<times> real \<Rightarrow> real
       \<Rightarrow> error + (real \<times> real) \<times> ('m, 'f) Planner" where
  "choose_cruise E self v_ego a_ego v_cruise_setpoint accel_limits_turns jerk_limits gasbrake =
     (if \<not> coast_enabled self then
        Inr (speed_smoother E (v_acc_start self) (a_acc_start self) v_cruise_setpoint
               (snd accel_limits_turns) (fst accel_limits_turns)
               (snd jerk_limits) (fst jerk_limits) LON_MPC_STEP,
             self\<lparr>cruise_source := cruiseGas\<rparr>)
      else
        let self =
              (if source self = cruiseCoast then
                 self\<lparr>v_acc_start := v_ego, a_acc_start := a_ego\<rparr>
               else if source self = mpc1 \<or> source self = mpc2 then
                 self\<lparr>cruise_source := (if gasbrake \<ge> 0 then cruiseGas else cruiseBrake)\<rparr>
               else self);
            (v_coast, a_coast) = (v_ego, a_ego);
            (v_gas, a_gas) =
              speed_smoother E (v_acc_start self) (a_acc_start self) v_cruise_setpoint
                (snd accel_limits_turns) (fst accel_limits_turns)
                (snd jerk_limits) (fst jerk_limits) LON_MPC_STEP;
            (v_brake, a_brake) =
              speed_smoother E (v_acc_start self) (a_acc_start self)
                (v_cruise_setpoint + COAST_SPEED E)
                (snd accel_limits_turns) (fst accel_limits_turns)
                (snd jerk_limits) (fst jerk_limits) LON_MPC_STEP;
            cruise = [(cruiseCoast, (v_coast, a_coast)),
                      (cruiseGas, (v_gas, a_gas)),
                      (cruiseBrake, (v_brake, a_brake))];
            self =
              (if gasbrake = 0 then
                 (if a_brake \<le> a_coast then self\<lparr>cruise_source := cruiseBrake\<rparr>
                  else if a_gas \<ge> a_coast then self\<lparr>cruise_source := cruiseGas\<rparr>
                  else if a_brake \<ge> a_coast \<and> a_coast \<ge> a_gas then
                    self\<lparr>cruise_source := cruiseCoast\<rparr>
                  else self)
               else self)
        in case dict_get cruise (cruise_source self) of
             Inl e \<Rightarrow> Inl e
           | Inr va \<Rightarrow> Inr (va, self))"

subsection \<open>One planning cycle: update\<close>

text \<open>
  Lines 224 to 231: the bounds and jerk bounds handed to \<open>choose_cruise\<close>. The source
  clamps \<open>accel_limits_turns\<close> in place after \<open>jerk_limits\<close> has been computed, so the jerk
  bounds come from the unclamped limits. The call of \<open>limit_accel_in_turns\<close> is commented
  out in the source: \<open>accel_limits_turns\<close> is \<open>accel_limits\<close> itself.
\<close>

definition cruise_limits ::
    "real \<Rightarrow> bool \<Rightarrow> int \<Rightarrow> bool \<Rightarrow> (real \<times> real) \<times> (real \<times> real)" where
  "cruise_limits v_ego following accelMode force_slow_decel =
     (let accel_limits = calc_cruise_accel_limits v_ego following accelMode;
          jerk_limits = (min (-0.1) (fst accel_limits), max 0.1 (snd accel_limits));
          accel_limits_turns = accel_limits;
          accel_limits_turns =
            (if force_slow_decel then
               let a1 = min (snd accel_limits_turns) AWARENESS_DECEL;
                   a0 = min (fst accel_limits_turns) a1
               in (a0, a1)
             else accel_limits_turns)
      in (accel_limits_turns, jerk_limits))"

definition is_enabled :: "SubMaster \<Rightarrow> bool" where
  "is_enabled sm \<longleftrightarrow>
     longControlState (controlsState sm) = pid \<or> longControlState (controlsState sm) = stopping"

definition is_following :: "SubMaster \<Rightarrow> bool" where
  "is_following sm \<longleftrightarrow>
     status (leadOne sm) \<and> dRel (leadOne sm) < 45.0 \<and>
     vLeadK (leadOne sm) > vEgo (carState sm) \<and> aLeadK (leadOne sm) > 0.0"

definition gasbrake_of :: "SubMaster \<Rightarrow> real" where
  "gasbrake_of sm = gas (actuators sm) - brake (actuators sm)"

definition v_cruise_setpoint_of :: "('m, 'f) ext \<Rightarrow> SubMaster \<Rightarrow> real" where
  "v_cruise_setpoint_of E sm = min (vCruise (controlsState sm)) (V_CRUISE_MAX E) * KPH_TO_MS E"

text \<open>Lines 213 to 220: the periodic reload of the configuration and the anchor shift.\<close>

definition update_begin :: "('m, 'f) Planner \<Rightarrow> SubMaster \<Rightarrow> ('m, 'f) Planner" where
  "update_begin self sm =
     (let self = (if mpc_frame self mod 1000 = 0
                  then self\<lparr>kegman := kegman_file sm, mpc_frame := 0\<rparr> else self);
          self = self\<lparr>mpc_frame := mpc_frame self + 1\<rparr>
      in self\<lparr>v_acc_start := v_acc_next self, a_acc_start := a_acc_next self\<rparr>)"

text \<open>Lines 223 to 253: the cruise computation, or the reset when it is bypassed.\<close>

definition takes_cruise_path :: "('m, 'f) Planner \<Rightarrow> SubMaster \<Rightarrow> bool" where
  "takes_cruise_path self sm \<longleftrightarrow>
     is_enabled sm \<and> \<not> first_loop self \<and> \<not> gasPressed (carState sm)"

definition update_cruise ::
    "('m, 'f) ext \<Rightarrow> ('m, 'f) Planner \<Rightarrow> SubMaster \<Rightarrow> error + ('m, 'f) Planner" where
  "update_cruise E self sm =
     (let v_ego = vEgo (carState sm);
          a_ego = aEgo (carState sm)
      in if takes_cruise_path self sm then
           let (accel_limits_turns, jerk_limits) =
                 cruise_limits v_ego (is_following sm) (accelerationMode (kegman self))
                   (forceDecel (controlsState sm))
           in case choose_cruise E self v_ego a_ego (v_cruise_setpoint_of E sm)
                     accel_limits_turns jerk_limits (gasbrake_of sm) of
                Inl e \<Rightarrow> Inl e
              | Inr ((v, a), self) \<Rightarrow>
                  let self = self\<lparr>v_cruise := v, a_cruise := a\<rparr>
                  in Inr (self\<lparr>v_cruise := max (v_cruise self) 0\<rparr>)
         else
           let is_starting = (longControlState (controlsState sm) = starting);
               a_ego = min a_ego 0.0;
               reset_speed = (if is_starting then minSpeedCan (self_CP self) else v_ego);
               reset_accel = (if is_starting then startAccel (self_CP self) else a_ego)
           in Inr (self\<lparr>v_acc := reset_speed, a_acc := reset_accel,
                        v_acc_start := reset_speed, a_acc_start := reset_accel,
                        v_cruise := reset_speed, a_cruise := reset_accel,
                        cruise_source := cruiseCoast\<rparr>))"

text \<open>Lines 255 to 259: both lead trackers take the anchor state and are advanced.\<close>

definition update_mpcs :: "('m, 'f) ext \<Rightarrow> ('m, 'f) Planner \<Rightarrow> SubMaster \<Rightarrow> ('m, 'f) Planner" where
  "update_mpcs E self sm =
     (let m1 = mpc_set_cur_state E (v_acc_start self) (a_acc_start self) (self_mpc1 self);
          m2 = mpc_set_cur_state E (v_acc_start self) (a_acc_start self) (self_mpc2 self)
      in self\<lparr>self_mpc1 := mpc_update E (carState sm) (leadOne sm) m1,
               self_mpc2 := mpc_update E (carState sm) (leadTwo sm) m2\<rparr>)"

text \<open>Lines 263 to 283: collision warning, the anchor of the next cycle, \<open>first_loop\<close>.\<close>

definition update_end :: "('m, 'f) ext \<Rightarrow> ('m, 'f) Planner \<Rightarrow> SubMaster \<Rightarrow> ('m, 'f) Planner" where
  "update_end E self sm =
     (let lead_1 = leadOne sm;
          self = (if new_lead (self_mpc1 self)
                  then self\<lparr>fcw_checker := FCWChecker_reset_lead E (cur_time sm) (fcw_checker self)\<rparr>
                  else self);
          blinkers = (leftBlinker (carState sm) \<or> rightBlinker (carState sm));
          (warn, checker) =
            FCWChecker_update E (mpc_solution (self_mpc1 self)) (cur_time sm)
              (active (controlsState sm)) (vEgo (carState sm)) (aEgo (carState sm))
              (dRel lead_1) (vLead lead_1) (aLeadK lead_1) (yRel lead_1) (vLat lead_1)
              (leadFcw lead_1) blinkers (fcw_checker self);
          self = self\<lparr>fcw_checker := checker, fcw := (warn \<and> \<not> brakePressed (carState sm))\<rparr>;
          a_acc_sol = a_acc_start self
                      + (radarTimeStep (CP_arg sm) / LON_MPC_STEP) * (a_acc self - a_acc_start self);
          v_acc_sol = v_acc_start self
                      + radarTimeStep (CP_arg sm) * (a_acc_sol + a_acc_start self) / 2.0
      in self\<lparr>v_acc_next := v_acc_sol, a_acc_next := a_acc_sol, first_loop := False\<rparr>)"

definition update ::
    "('m, 'f) ext \<Rightarrow> ('m, 'f) Planner \<Rightarrow> SubMaster \<Rightarrow> error + ('m, 'f) Planner" where
  "update E self sm =
     (case update_cruise E (update_begin self sm) sm of
        Inl e \<Rightarrow> Inl e
      | Inr self \<Rightarrow>
          (case choose_solution (update_mpcs E self sm) (v_cruise_setpoint_of E sm)
                  (is_enabled sm) of
             Inl e \<Rightarrow> Inl e
           | Inr self \<Rightarrow> Inr (update_end E self sm)))"

text \<open>A run of cycles stops at the first one that raises.\<close>

fun run :: "('m, 'f) ext \<Rightarrow> ('m, 'f) Planner \<Rightarrow> SubMaster list \<Rightarrow> error + ('m, 'f) Planner" where
  "run E self [] = Inr self"
| "run E self (sm # sms) =
     (case update E self sm of Inl e \<Rightarrow> Inl e | Inr self' \<Rightarrow> run E self' sms)"

text \<open>
  The states a planner can be in: the one its constructor builds, and every state a
  completed call of \<open>update\<close> leaves behind.
\<close>

inductive reachable :: "('m, 'f) ext \<Rightarrow> ('m, 'f) Planner \<Rightarrow> bool" for E :: "('m, 'f) ext" where
  reachable_init: "reachable E (Planner_init E conf CP)"
| reachable_update: "reachable E self \<Longrightarrow> update E self sm = Inr self' \<Longrightarrow> reachable E self'"

subsection \<open>Auxiliary notions for the properties\<close>

text \<open>The three cruise variants of \<open>Source\<close>, the only values \<open>cruise_source\<close> is ever given.\<close>

definition is_cruise :: "Source \<Rightarrow> bool" where
  "is_cruise s \<longleftrightarrow> s = cruiseCoast \<or> s = cruiseGas \<or> s = cruiseBrake"

text \<open>
  A real number that a float operation returns as it is: zero, or of a magnitude
  strictly between the underflow and the overflow threshold.
\<close>

definition in_range :: "real \<Rightarrow> bool" where
  "in_range x \<longleftrightarrow> x = 0 \<or> (DBL_UNDERFLOW < \<bar>x\<bar> \<and> \<bar>x\<bar> < DBL_OVERFLOW)"

text \<open>
  Concrete collaborators and inputs on which the planner can be evaluated: a smoother
  that jumps to the target speed at the acceleration bound of the matching sign, a lead
  tracker that reports the radar lead as it is, a collision checker that never warns.
\<close>

definition demo_ext :: "(unit, unit) ext" where
  "demo_ext =
     \<lparr> speed_smoother = (\<lambda>v a v_target a_max a_min j_max j_min dt.
          (v_target, if v < v_target then a_max else if v_target < v then a_min else 0)),
       mpc_new = (\<lambda>n. \<lparr> prev_lead_status = False, new_lead = False, v_mpc = 0, a_mpc = 0,
                          v_mpc_future = 0, mpc_solution = () \<rparr>),
       mpc_set_cur_state = (\<lambda>v a m. m),
       mpc_update = (\<lambda>cs lead m. m\<lparr> prev_lead_status := status lead, v_mpc := vLead lead,
                                       a_mpc := aLeadK lead, v_mpc_future := vLead lead \<rparr>),
       FCWChecker_new = (),
       FCWChecker_reset_lead = (\<lambda>t c. c),
       FCWChecker_update = (\<lambda>sol t act v a d vl al y vlat f b c. (False, c)),
       V_CRUISE_MAX = 144,
       KPH_TO_MS = 1 / 3.6,
       MPH_TO_MS = 0.44704 \<rparr>"

definition demo_CP :: CarParams where
  "demo_CP = \<lparr> minSpeedCan = 0.3, startAccel = 1.2, steerRatio = 15, wheelbase = 2.7,
               radarTimeStep = 0.05 \<rparr>"

definition demo_conf :: kegman_conf where
  "demo_conf = \<lparr> accelerationMode = 1, slowOnCurves = 0 \<rparr>"

definition fast_lead :: Lead where
  "fast_lead = \<lparr> status = True, dRel = 25, vLeadK = 22, aLeadK = 0.4, vLead = 22, yRel = 0,
                 vLat = 0, leadFcw = False \<rparr>"

definition slow_lead :: Lead where
  "slow_lead = \<lparr> status = True, dRel = 25, vLeadK = 15, aLeadK = 0, vLead = 15, yRel = 0,
                 vLat = 0, leadFcw = False \<rparr>"

definition no_lead :: Lead where
  "no_lead = \<lparr> status = False, dRel = 0, vLeadK = 0, aLeadK = 0, vLead = 0, yRel = 0,
               vLat = 0, leadFcw = False \<rparr>"

text \<open>
  A cycle's input at 20 m/s, accelerating at 0.5, with a set speed of 90 km/h (25 m/s), for a
  given control state, gas command, forced-deceleration request and first lead.
\<close>

definition demo_sm :: "LongCtrlState \<Rightarrow> real \<Rightarrow> bool \<Rightarrow> Lead \<Rightarrow> SubMaster" where
  "demo_sm st g force lead =
     \<lparr> carState = \<lparr> vEgo = 20, aEgo = 0.5, gasPressed = False, brakePressed = False,
                     leftBlinker = False, rightBlinker = False, steeringAngleDeg = 0 \<rparr>,
       actuators = \<lparr> gas = g, brake = 0 \<rparr>,
       controlsState = \<lparr> longControlState = st, vCruise = 90, forceDecel = force,
                          active = True \<rparr>,
       leadOne = lead, leadTwo = no_lead, CP_arg = demo_CP, cur_time = 0,
       kegman_file = demo_conf \<rparr>"

definition demo_init :: "(unit, unit) Planner" where
  "demo_init = Planner_init demo_ext demo_conf demo_CP"

text \<open>
  The planner after a first cycle in which the first tracker reports the slow lead: the
  lead's 15 m/s is below the cruise candidate's 20 m/s, so the lead tracker has won.
\<close>

definition demo_tracking :: "(unit, unit) Planner" where
  "demo_tracking =
     \<lparr> self_CP = demo_CP,
       self_mpc1 = \<lparr> prev_lead_status = True, new_lead = False, v_mpc = 15, a_mpc = 0,
                      v_mpc_future = 15, mpc_solution = () \<rparr>,
       self_mpc2 = \<lparr> prev_lead_status = False, new_lead = False, v_mpc = 0, a_mpc = 0,
                      v_mpc_future = 0, mpc_solution = () \<rparr>,
       v_acc_start = 20, a_acc_start = 0, v_acc_next = 20, a_acc_next = 0,
       v_acc = 15, v_acc_future = 0, a_acc = 0, v_cruise = 20, a_cruise = 0,
       source = mpc1, cruise_source = cruiseCoast,
       fcw_checker = (), fcw = False,
       kegman = demo_conf, mpc_frame = 1, first_loop = False,
       coast_enabled = True \<rparr>"

section \<open>Properties\<close>

subsection \<open>Interpolation stays within the table\<close>

lemma lin_between:
  fixes x x0 x1 y0 y1 lo hi :: real
  assumes "x0 < x" "x \<le> x1" "lo \<le> y0" "y0 \<le> hi" "lo \<le> y1" "y1 \<le> hi"
  shows "lo \<le> (x - x0) * (y1 - y0) / (x1 - x0) + y0 \<and> (x - x0) * (y1 - y0) / (x1 - x0) + y0 \<le> hi"
proof -
  define t where "t = (x - x0) / (x1 - x0)"
  have t0: "0 \<le> t" and t1: "t \<le> 1" using assms by (simp_all add: t_def)
  have e: "(x - x0) * (y1 - y0) / (x1 - x0) + y0 = (1 - t) * y0 + t * y1"
  proof -
    have "(x - x0) * (y1 - y0) / (x1 - x0) = t * (y1 - y0)"
      unfolding t_def by simp
    then show ?thesis by (simp add: algebra_simps)
  qed
  have "(1 - t) * lo + t * lo \<le> (1 - t) * y0 + t * y1"
    using t0 t1 assms by (intro add_mono mult_left_mono) simp_all
  moreover have "(1 - t) * y0 + t * y1 \<le> (1 - t) * hi + t * hi"
    using t0 t1 assms by (intro add_mono mult_left_mono) simp_all
  ultimately show ?thesis unfolding e by (simp add: algebra_simps)
qed

lemma interp_from_between:
  "x0 < x \<Longrightarrow> lo \<le> y0 \<Longrightarrow> y0 \<le> hi \<Longrightarrow> \<forall>y\<in>set ys. lo \<le> y \<and> y \<le> hi \<Longrightarrow>
   lo \<le> interp_from x x0 y0 xs ys \<and> interp_from x x0 y0 xs ys \<le> hi"
proof (induction x x0 y0 xs ys rule: interp_from.induct)
  case (1 x x0 y0 x1 xs y1 ys)
  show ?case
  proof (cases "x \<le> x1")
    case True
    then show ?thesis using 1 lin_between[of x0 x x1 lo y0 hi y1] by simp
  next
    case False
    then show ?thesis using 1 by simp
  qed
qed simp_all

lemma interp_between:
  "xs \<noteq> [] \<Longrightarrow> ys \<noteq> [] \<Longrightarrow> \<forall>y\<in>set ys. lo \<le> y \<and> y \<le> hi \<Longrightarrow>
   lo \<le> interp x xs ys \<and> interp x xs ys \<le> hi"
proof (cases xs; cases ys)
  fix a list aa lista
  assume h: "xs \<noteq> []" "ys \<noteq> []" "\<forall>y\<in>set ys. lo \<le> y \<and> y \<le> hi" "xs = a # list" "ys = aa # lista"
  show ?thesis
  proof (cases "x \<le> a")
    case True then show ?thesis using h by simp
  next
    case False
    then have "a < x" by simp
    then show ?thesis using h False interp_from_between[of a x lo aa hi lista list] by simp
  qed
qed simp_all

lemma mode_index_cases:
  "A_CRUISE_MAX_V_MODE_LIST ! A_CRUISE_MAX_V_MODE_LIST_INDEX m = A_CRUISE_MAX_V_ECO \<or>
   A_CRUISE_MAX_V_MODE_LIST ! A_CRUISE_MAX_V_MODE_LIST_INDEX m = A_CRUISE_MAX_V \<or>
   A_CRUISE_MAX_V_MODE_LIST ! A_CRUISE_MAX_V_MODE_LIST_INDEX m = A_CRUISE_MAX_V_SPORT"
proof -
  consider "m \<le> 0" | "m = 1" | "m \<ge> 2" by linarith
  then show ?thesis
  proof cases
    case 1 then show ?thesis by (simp add: A_CRUISE_MAX_V_MODE_LIST_INDEX_def A_CRUISE_MAX_V_MODE_LIST_def max_def)
  next
    case 2 then show ?thesis by (simp add: A_CRUISE_MAX_V_MODE_LIST_INDEX_def A_CRUISE_MAX_V_MODE_LIST_def)
  next
    case 3 then show ?thesis by (simp add: A_CRUISE_MAX_V_MODE_LIST_INDEX_def A_CRUISE_MAX_V_MODE_LIST_def max_def min_def numeral_2_eq_2)
  qed
qed

lemma a_cruise_min_neg: "interp v A_CRUISE_MIN_BP A_CRUISE_MIN_V \<le> -0.3"
  using interp_between[of A_CRUISE_MIN_BP A_CRUISE_MIN_V "-2" "-0.3" v]
  by (simp add: A_CRUISE_MIN_BP_def A_CRUISE_MIN_V_def)

lemma a_cruise_max_pos:
  "ys = A_CRUISE_MAX_V_FOLLOWING \<or> ys = A_CRUISE_MAX_V_ECO \<or> ys = A_CRUISE_MAX_V \<or> ys = A_CRUISE_MAX_V_SPORT
   \<Longrightarrow> 0.2 \<le> interp v A_CRUISE_MAX_BP ys"
  using interp_between[of A_CRUISE_MAX_BP ys "0.2" "3.5" v]
  by (auto simp add: A_CRUISE_MAX_BP_def A_CRUISE_MAX_V_FOLLOWING_def A_CRUISE_MAX_V_ECO_def A_CRUISE_MAX_V_def A_CRUISE_MAX_V_SPORT_def)

subsection \<open>The acceleration bounds are ordered\<close>

text \<open>
  C5. For every speed, every following flag and every integer mode selector, the mode
  index that \<open>calc_cruise_accel_limits\<close> computes lies within the list of the three mode
  curves (so the lookup cannot raise, whatever the selector), and the pair it returns has
  \<open>a_min \<le> a_max\<close>.
\<close>

theorem accel_limits_ordered:
  "A_CRUISE_MAX_V_MODE_LIST_INDEX accelMode < length A_CRUISE_MAX_V_MODE_LIST \<and>
   fst (calc_cruise_accel_limits v_ego following accelMode)
     \<le> snd (calc_cruise_accel_limits v_ego following accelMode)"
proof -
  have lo: "fst (calc_cruise_accel_limits v_ego following accelMode) \<le> -0.3"
    by (simp add: calc_cruise_accel_limits_def a_cruise_min_neg)
  have hi: "0.2 \<le> snd (calc_cruise_accel_limits v_ego following accelMode)"
  proof (cases following)
    case True
    then show ?thesis using a_cruise_max_pos[of A_CRUISE_MAX_V_FOLLOWING v_ego]
      by (simp add: calc_cruise_accel_limits_def)
  next
    case False
    then show ?thesis
      using mode_index_cases[of accelMode]
        a_cruise_max_pos[of "A_CRUISE_MAX_V_MODE_LIST ! A_CRUISE_MAX_V_MODE_LIST_INDEX accelMode" v_ego]
      by (simp add: calc_cruise_accel_limits_def)
  qed
  have ix: "A_CRUISE_MAX_V_MODE_LIST_INDEX accelMode < length A_CRUISE_MAX_V_MODE_LIST"
    by (simp add: A_CRUISE_MAX_V_MODE_LIST_INDEX_def A_CRUISE_MAX_V_MODE_LIST_def)
  show ?thesis using lo hi ix by linarith
qed

subsection \<open>What each part of a cycle leaves unchanged\<close>

lemma update_begin_frame [simp]:
  "coast_enabled (update_begin self sm) = coast_enabled self"
  "cruise_source (update_begin self sm) = cruise_source self"
  "source (update_begin self sm) = source self"
  "first_loop (update_begin self sm) = first_loop self"
  "self_CP (update_begin self sm) = self_CP self"
  by (simp_all add: update_begin_def Let_def)

lemma update_mpcs_frame [simp]:
  "coast_enabled (update_mpcs E self sm) = coast_enabled self"
  "cruise_source (update_mpcs E self sm) = cruise_source self"
  "source (update_mpcs E self sm) = source self"
  "first_loop (update_mpcs E self sm) = first_loop self"
  "v_acc (update_mpcs E self sm) = v_acc self"
  "a_acc (update_mpcs E self sm) = a_acc self"
  "v_cruise (update_mpcs E self sm) = v_cruise self"
  "a_cruise (update_mpcs E self sm) = a_cruise self"
  by (simp_all add: update_mpcs_def Let_def)

lemma update_end_frame [simp]:
  "coast_enabled (update_end E self sm) = coast_enabled self"
  "cruise_source (update_end E self sm) = cruise_source self"
  "source (update_end E self sm) = source self"
  "first_loop (update_end E self sm) = False"
  "v_acc (update_end E self sm) = v_acc self"
  "a_acc (update_end E self sm) = a_acc self"
  "v_cruise (update_end E self sm) = v_cruise self"
  "a_cruise (update_end E self sm) = a_cruise self"
  "v_acc_future (update_end E self sm) = v_acc_future self"
  by (simp_all add: update_end_def Let_def split: prod.splits)

lemma choose_solution_disabled:
  "choose_solution self sp False =
     Inr (self\<lparr>v_acc_future :=
            min (v_mpc_future (self_mpc1 self)) (min (v_mpc_future (self_mpc2 self)) sp)\<rparr>)"
  by (simp add: choose_solution_def)

lemma choose_solution_frame:
  "choose_solution self sp en = Inr self' \<Longrightarrow>
     coast_enabled self' = coast_enabled self \<and> cruise_source self' = cruise_source self \<and>
     first_loop self' = first_loop self \<and> v_cruise self' = v_cruise self \<and> a_cruise self' = a_cruise self"
  by (auto simp add: choose_solution_def Let_def split: sum.splits if_splits)

lemma solutions_nonempty: "solutions self \<noteq> []"
  by (cases "cruise_source self = mpc1"; cases "cruise_source self = mpc2") (auto simp add: solutions_def Let_def)

lemma choose_solution_total: "\<exists>self'. choose_solution self sp en = Inr self'"
  using solutions_nonempty[of self]
  by (cases "solutions self") (auto simp add: choose_solution_def Let_def dict_min_key_def split: sum.splits)

lemma choose_cruise_frame:
  "choose_cruise E self v a sp alim jerk gb = Inr (r, self') \<Longrightarrow>
     coast_enabled self' = coast_enabled self \<and> first_loop self' = first_loop self"
  by (auto simp add: choose_cruise_def Let_def dict_get_def split: sum.splits if_splits prod.splits option.splits)

lemma choose_cruise_is_cruise:
  "choose_cruise E self v a sp alim jerk gb = Inr (r, self') \<Longrightarrow> is_cruise (cruise_source self')"
  by (auto simp add: choose_cruise_def Let_def dict_get_def is_cruise_def split: sum.splits if_splits prod.splits option.splits)

lemma update_cruise_frame:
  "update_cruise E self sm = Inr self' \<Longrightarrow>
     coast_enabled self' = coast_enabled self \<and> first_loop self' = first_loop self \<and> is_cruise (cruise_source self')"
  by (auto simp add: update_cruise_def Let_def is_cruise_def split: sum.splits if_splits prod.splits
        dest: choose_cruise_frame choose_cruise_is_cruise)

lemma update_coast_enabled:
  "update E self sm = Inr self' \<Longrightarrow> coast_enabled self' = coast_enabled self"
  by (auto simp add: update_def split: sum.splits dest!: update_cruise_frame choose_solution_frame)

lemma update_is_cruise:
  "update E self sm = Inr self' \<Longrightarrow> is_cruise (cruise_source self')"
  by (auto simp add: update_def split: sum.splits dest!: update_cruise_frame choose_solution_frame)

subsection \<open>Evaluating the planner on the concrete inputs\<close>

lemmas demo_defs = demo_ext_def demo_CP_def demo_conf_def fast_lead_def slow_lead_def no_lead_def
  demo_sm_def demo_init_def Planner_init_def demo_tracking_def
lemmas upd_defs = update_def update_begin_def update_cruise_def update_mpcs_def update_end_def
  choose_solution_def choose_cruise_def solutions_def dict_min_key_def dict_get_def
  takes_cruise_path_def is_enabled_def is_following_def gasbrake_of_def v_cruise_setpoint_of_def
  cruise_limits_def calc_cruise_accel_limits_def COAST_SPEED_def LON_MPC_STEP_def AWARENESS_DECEL_def

lemmas table_defs = A_CRUISE_MIN_BP_def A_CRUISE_MIN_V_def
          A_CRUISE_MAX_BP_def A_CRUISE_MAX_V_def A_CRUISE_MAX_V_MODE_LIST_def
          A_CRUISE_MAX_V_MODE_LIST_INDEX_def A_CRUISE_MAX_V_ECO_def A_CRUISE_MAX_V_SPORT_def
          A_CRUISE_MAX_V_FOLLOWING_def A_TOTAL_MAX_V_def A_TOTAL_MAX_BP_def A_TOTAL_MAX_V_SOC_def
          A_TOTAL_MAX_BP_SOC_def

lemma demo_tracking_step:
  "update demo_ext demo_init (demo_sm pid 0 False slow_lead) = Inr demo_tracking"
  by (simp add: demo_defs upd_defs Let_def)

lemma demo_tracking_reachable: "reachable demo_ext demo_tracking"
  using reachable_update[OF reachable_init demo_tracking_step[unfolded demo_init_def]] .

subsection \<open>The coast flag\<close>

text \<open>
  C10. In every reachable planner state \<open>coast_enabled\<close> is true: the constructor sets it
  and no completed cycle changes it. The state that \<open>update\<close> hands to \<open>choose_cruise\<close>
  therefore has the flag set as well, so the branch of \<open>choose_cruise\<close> for a disabled
  coast mode is never taken.
\<close>

theorem coast_enabled_invariant:
  "reachable E self \<Longrightarrow> coast_enabled self \<and> coast_enabled (update_begin self sm)"
proof -
  assume r: "reachable E self"
  then have "coast_enabled self"
  proof (induction rule: reachable.induct)
    case (reachable_init conf CP)
    show ?case by (simp add: Planner_init_def)
  next
    case (reachable_update self sm self')
    then show ?case using update_coast_enabled by blast
  qed
  then show ?thesis by simp
qed

theorem coast_enabled_invariant_witness:
  "reachable demo_ext demo_tracking \<and> coast_enabled demo_tracking \<and>
   coast_enabled (update_begin demo_tracking (demo_sm pid 0 False no_lead))"
  using coast_enabled_invariant[OF demo_tracking_reachable, of "demo_sm pid 0 False no_lead"]
    demo_tracking_reachable by simp

subsection \<open>The reset path\<close>

text \<open>
  C2, as stated, fails: a cycle that is not enabled because the control state is
  \<open>starting\<close> resets to the minimum supported speed (here 0.3 m/s) and not to the measured
  speed (here 20 m/s).
\<close>

theorem safety_reset_counterexample:
  "\<not> is_enabled (demo_sm starting 0 False no_lead) \<and>
   vEgo (carState (demo_sm starting 0 False no_lead)) = 20 \<and>
   map_sum id v_acc (update demo_ext demo_init (demo_sm starting 0 False no_lead)) = Inr 0.3"
  by (simp add: demo_defs upd_defs Let_def)

text \<open>
  C2, amended. When the planner is not enabled, then for any prior state one cycle
  completes and leaves \<open>v_acc = v_cruise\<close> and \<open>a_acc = a_cruise\<close> at the reset pair, with
  \<open>cruise_source = cruiseCoast\<close>. The reset pair is the measured speed and the measured
  acceleration clamped to at most 0, except in the control state \<open>starting\<close>, where it is
  the car's minimum supported speed and its start acceleration.
\<close>

theorem safety_reset:
  assumes "\<not> is_enabled sm"
  shows "\<exists>s. update E self sm = Inr s \<and>
           v_acc s = (if longControlState (controlsState sm) = starting
                      then minSpeedCan (self_CP self) else vEgo (carState sm)) \<and>
           v_cruise s = v_acc s \<and>
           a_acc s = (if longControlState (controlsState sm) = starting
                      then startAccel (self_CP self) else min (aEgo (carState sm)) 0) \<and>
           a_cruise s = a_acc s \<and>
           cruise_source s = cruiseCoast"
  using assms
  by (simp add: update_def update_cruise_def takes_cruise_path_def choose_solution_disabled Let_def)

theorem safety_reset_witness:
  "\<not> is_enabled (demo_sm off 0 False slow_lead) \<and>
   map_sum id v_acc (update demo_ext demo_tracking (demo_sm off 0 False slow_lead)) = Inr 20 \<and>
   map_sum id a_acc (update demo_ext demo_tracking (demo_sm off 0 False slow_lead)) = Inr 0 \<and>
   map_sum id cruise_source (update demo_ext demo_tracking (demo_sm off 0 False slow_lead))
     = Inr cruiseCoast"
proof -
  have h: "\<not> is_enabled (demo_sm off 0 False slow_lead)"
    by (simp add: is_enabled_def demo_sm_def)
  from safety_reset[OF h, of demo_ext demo_tracking]
  show ?thesis using h by (auto simp add: demo_sm_def)
qed

subsection \<open>Arbitration while disabled\<close>

text \<open>
  C9. With \<open>enabled\<close> false, \<open>choose_solution\<close> returns the planner with nothing but
  \<open>v_acc_future\<close> rewritten, so \<open>source\<close>, \<open>v_acc\<close> and \<open>a_acc\<close> are untouched. A whole
  disabled cycle keeps \<open>source\<close> as it was, whatever it was, forces \<open>cruise_source\<close> to
  \<open>cruiseCoast\<close>, and still sets \<open>v_acc_future\<close> to the minimum of the future speeds of the
  two freshly advanced lead trackers and the cruise setpoint.
\<close>

theorem disabled_arbitration_frame:
  "choose_solution self sp False =
     Inr (self\<lparr>v_acc_future :=
            min (v_mpc_future (self_mpc1 self)) (min (v_mpc_future (self_mpc2 self)) sp)\<rparr>) \<and>
   (\<not> is_enabled sm \<longrightarrow>
      (\<exists>s. update E self sm = Inr s \<and> source s = source self \<and> cruise_source s = cruiseCoast \<and>
           self_mpc1 s = mpc_update E (carState sm) (leadOne sm)
             (mpc_set_cur_state E (v_acc_start s) (a_acc_start s) (self_mpc1 self)) \<and>
           self_mpc2 s = mpc_update E (carState sm) (leadTwo sm)
             (mpc_set_cur_state E (v_acc_start s) (a_acc_start s) (self_mpc2 self)) \<and>
           v_acc_future s =
             min (v_mpc_future (self_mpc1 s))
               (min (v_mpc_future (self_mpc2 s)) (v_cruise_setpoint_of E sm))))"
proof -
  have a: "choose_solution self sp False =
     Inr (self\<lparr>v_acc_future :=
            min (v_mpc_future (self_mpc1 self)) (min (v_mpc_future (self_mpc2 self)) sp)\<rparr>)"
    by (rule choose_solution_disabled)
  have b: "\<exists>s. update E self sm = Inr s \<and> source s = source self \<and> cruise_source s = cruiseCoast \<and>
           self_mpc1 s = mpc_update E (carState sm) (leadOne sm)
             (mpc_set_cur_state E (v_acc_start s) (a_acc_start s) (self_mpc1 self)) \<and>
           self_mpc2 s = mpc_update E (carState sm) (leadTwo sm)
             (mpc_set_cur_state E (v_acc_start s) (a_acc_start s) (self_mpc2 self)) \<and>
           v_acc_future s =
             min (v_mpc_future (self_mpc1 s))
               (min (v_mpc_future (self_mpc2 s)) (v_cruise_setpoint_of E sm))"
    if d: "\<not> is_enabled sm"
  proof -
    obtain s1 where s1: "update_cruise E (update_begin self sm) sm = Inr s1"
      and s1f: "source s1 = source self" "cruise_source s1 = cruiseCoast"
        "self_mpc1 s1 = self_mpc1 self" "self_mpc2 s1 = self_mpc2 self"
      using d by (simp add: update_cruise_def takes_cruise_path_def Let_def update_begin_def)
    define s2 where "s2 = update_mpcs E s1 sm"
    have s2f: "source s2 = source self" "cruise_source s2 = cruiseCoast"
      "self_mpc1 s2 = mpc_update E (carState sm) (leadOne sm)
             (mpc_set_cur_state E (v_acc_start s1) (a_acc_start s1) (self_mpc1 self))"
      "self_mpc2 s2 = mpc_update E (carState sm) (leadTwo sm)
             (mpc_set_cur_state E (v_acc_start s1) (a_acc_start s1) (self_mpc2 self))"
      "v_acc_start s2 = v_acc_start s1" "a_acc_start s2 = a_acc_start s1"
      using s1f by (simp_all add: s2_def update_mpcs_def Let_def)
    define s3 where "s3 = s2\<lparr>v_acc_future :=
            min (v_mpc_future (self_mpc1 s2)) (min (v_mpc_future (self_mpc2 s2)) (v_cruise_setpoint_of E sm))\<rparr>"
    have u: "update E self sm = Inr (update_end E s3 sm)"
      using d s1 by (simp add: update_def choose_solution_disabled s2_def s3_def)
    have e: "self_mpc1 (update_end E s3 sm) = self_mpc1 s3" "self_mpc2 (update_end E s3 sm) = self_mpc2 s3"
      "v_acc_start (update_end E s3 sm) = v_acc_start s3" "a_acc_start (update_end E s3 sm) = a_acc_start s3"
      by (simp_all add: update_end_def Let_def split: prod.splits)
    show ?thesis
      using u e s2f by (simp add: s3_def)
  qed
  show ?thesis using a b by blast
qed

theorem disabled_arbitration_frame_witness:
  "reachable demo_ext demo_tracking \<and> source demo_tracking = mpc1 \<and>
   \<not> is_enabled (demo_sm off 0 False slow_lead) \<and>
   map_sum id source (update demo_ext demo_tracking (demo_sm off 0 False slow_lead)) = Inr mpc1 \<and>
   map_sum id cruise_source (update demo_ext demo_tracking (demo_sm off 0 False slow_lead))
     = Inr cruiseCoast \<and>
   map_sum id v_acc_future (update demo_ext demo_tracking (demo_sm off 0 False slow_lead)) = Inr 0"
proof -
  have h: "\<not> is_enabled (demo_sm off 0 False slow_lead)"
    by (simp add: is_enabled_def demo_sm_def)
  have s: "source demo_tracking = mpc1" by (simp add: demo_tracking_def)
  from disabled_arbitration_frame[of demo_tracking 0 "demo_sm off 0 False slow_lead" demo_ext] h
  obtain s where u: "update demo_ext demo_tracking (demo_sm off 0 False slow_lead) = Inr s"
    and f: "source s = source demo_tracking" "cruise_source s = cruiseCoast"
      "v_acc_future s = min (v_mpc_future (self_mpc1 s))
               (min (v_mpc_future (self_mpc2 s)) (v_cruise_setpoint_of demo_ext (demo_sm off 0 False slow_lead)))"
      "self_mpc2 s = mpc_update demo_ext (carState (demo_sm off 0 False slow_lead)) (leadTwo (demo_sm off 0 False slow_lead))
             (mpc_set_cur_state demo_ext (v_acc_start s) (a_acc_start s) (self_mpc2 demo_tracking))"
      "self_mpc1 s = mpc_update demo_ext (carState (demo_sm off 0 False slow_lead)) (leadOne (demo_sm off 0 False slow_lead))
             (mpc_set_cur_state demo_ext (v_acc_start s) (a_acc_start s) (self_mpc1 demo_tracking))"
    by blast
  have "v_acc_future s = 0" using f(3,4,5)
    by (simp add: demo_defs v_cruise_setpoint_of_def)
  then show ?thesis using demo_tracking_reachable h s u f by simp
qed

subsection \<open>The forced deceleration\<close>

text \<open>
  C4. On the cruise path of a cycle with the forced-slow-deceleration request active,
  \<open>update\<close> calls \<open>choose_cruise\<close> with the bounds that \<open>cruise_limits\<close> computes, and these
  satisfy \<open>a_max \<le> AWARENESS_DECEL\<close> and \<open>a_min \<le> a_max\<close>.
\<close>

theorem forced_decel_bounds:
  assumes "takes_cruise_path self sm" and "forceDecel (controlsState sm)"
    and "cruise_limits (vEgo (carState sm)) (is_following sm) (accelerationMode (kegman self))
           (forceDecel (controlsState sm)) = (accel_limits_turns, jerk_limits)"
  shows "update_cruise E self sm =
           (case choose_cruise E self (vEgo (carState sm)) (aEgo (carState sm))
                   (v_cruise_setpoint_of E sm) accel_limits_turns jerk_limits (gasbrake_of sm) of
              Inl e \<Rightarrow> Inl e
            | Inr ((v, a), self') \<Rightarrow> Inr (self'\<lparr>v_cruise := max v 0, a_cruise := a\<rparr>)) \<and>
         snd accel_limits_turns \<le> AWARENESS_DECEL \<and>
         fst accel_limits_turns \<le> snd accel_limits_turns"
proof -
  have "update_cruise E self sm =
           (case choose_cruise E self (vEgo (carState sm)) (aEgo (carState sm))
                   (v_cruise_setpoint_of E sm) accel_limits_turns jerk_limits (gasbrake_of sm) of
              Inl e \<Rightarrow> Inl e
            | Inr ((v, a), self') \<Rightarrow> Inr (self'\<lparr>v_cruise := max v 0, a_cruise := a\<rparr>))"
    using assms(1,3) by (simp add: update_cruise_def Let_def split: sum.splits prod.splits)
  moreover have "snd accel_limits_turns \<le> AWARENESS_DECEL \<and>
         fst accel_limits_turns \<le> snd accel_limits_turns"
    using assms(2,3) by (auto simp add: cruise_limits_def Let_def)
  ultimately show ?thesis by simp
qed

theorem forced_decel_bounds_witness:
  "takes_cruise_path demo_tracking (demo_sm pid 0 True no_lead) \<and>
   forceDecel (controlsState (demo_sm pid 0 True no_lead)) \<and>
   cruise_limits 20 False 1 True = ((-0.7, -0.2), (-0.7, 0.5)) \<and>
   update_cruise demo_ext demo_tracking (demo_sm pid 0 True no_lead) =
     (case choose_cruise demo_ext demo_tracking 20 0.5 25 (-0.7, -0.2) (-0.7, 0.5) 0 of
        Inl e \<Rightarrow> Inl e
      | Inr ((v, a), self') \<Rightarrow> Inr (self'\<lparr>v_cruise := max v 0, a_cruise := a\<rparr>)) \<and>
   (-0.2 :: real) \<le> AWARENESS_DECEL \<and> (-0.7 :: real) \<le> -0.2"
proof -
  have p: "takes_cruise_path demo_tracking (demo_sm pid 0 True no_lead)"
    by (simp add: takes_cruise_path_def is_enabled_def demo_sm_def demo_tracking_def)
  have f: "forceDecel (controlsState (demo_sm pid 0 True no_lead))"
    by (simp add: demo_sm_def)
  have l: "cruise_limits (vEgo (carState (demo_sm pid 0 True no_lead)))
             (is_following (demo_sm pid 0 True no_lead)) (accelerationMode (kegman demo_tracking))
             (forceDecel (controlsState (demo_sm pid 0 True no_lead))) = ((-0.7, -0.2), (-0.7, 0.5))"
    by (simp add: demo_defs upd_defs Let_def A_CRUISE_MIN_BP_def A_CRUISE_MIN_V_def
          A_CRUISE_MAX_BP_def A_CRUISE_MAX_V_def A_CRUISE_MAX_V_MODE_LIST_def
          A_CRUISE_MAX_V_MODE_LIST_INDEX_def A_CRUISE_MAX_V_ECO_def A_CRUISE_MAX_V_SPORT_def)
  have l': "cruise_limits 20 False 1 True = ((-0.7, -0.2), (-0.7, 0.5))"
    using l by (simp add: demo_defs is_following_def)
  have sp: "v_cruise_setpoint_of demo_ext (demo_sm pid 0 True no_lead) = 25"
    by (simp add: demo_defs v_cruise_setpoint_of_def)
  from forced_decel_bounds[OF p f l, of demo_ext]
  show ?thesis using p f l' sp by (simp add: demo_sm_def gasbrake_of_def)
qed

subsection \<open>Gas is held while the gas command stays positive\<close>

lemma choose_cruise_gas_held:
  assumes "cruise_source self = cruiseGas" "0 < gasbrake"
  shows "\<exists>r s. choose_cruise E self v a sp alim jerk gasbrake = Inr (r, s) \<and>
               cruise_source s = cruiseGas \<and> first_loop s = first_loop self"
  using assms
  by (auto simp add: choose_cruise_def Let_def dict_get_def split: prod.splits)

lemma update_gas_held:
  assumes "cruise_source self = cruiseGas" "\<not> first_loop self"
    "is_enabled sm" "\<not> gasPressed (carState sm)" "0 < gasbrake_of sm"
  shows "\<exists>s. update E self sm = Inr s \<and> cruise_source s = cruiseGas \<and> \<not> first_loop s"
proof -
  let ?b = "update_begin self sm"
  obtain alim jerk where lj: "cruise_limits (vEgo (carState sm)) (is_following sm) (accelerationMode (kegman ?b))
                   (forceDecel (controlsState sm)) = (alim, jerk)" by (cases "cruise_limits (vEgo (carState sm)) (is_following sm) (accelerationMode (kegman ?b))
                   (forceDecel (controlsState sm))") 
  have b: "cruise_source ?b = cruiseGas" using assms(1) by simp
  from choose_cruise_gas_held[OF b assms(5), of E "vEgo (carState sm)" "aEgo (carState sm)" "v_cruise_setpoint_of E sm" alim jerk]
  obtain r s1 where c: "choose_cruise E ?b (vEgo (carState sm)) (aEgo (carState sm))
       (v_cruise_setpoint_of E sm) alim jerk (gasbrake_of sm) = Inr (r, s1)"
    and g: "cruise_source s1 = cruiseGas" by blast
  obtain s2 where s2: "update_cruise E ?b sm = Inr s2" and g2: "cruise_source s2 = cruiseGas"
    using assms(2,3,4) lj c g
    by (cases r) (simp add: update_cruise_def takes_cruise_path_def Let_def)
  obtain s3 where s3: "choose_solution (update_mpcs E s2 sm) (v_cruise_setpoint_of E sm) (is_enabled sm) = Inr s3"
    using choose_solution_total by blast
  have g3: "cruise_source s3 = cruiseGas"
    using choose_solution_frame[OF s3] g2 by simp
  have "update E self sm = Inr (update_end E s3 sm)"
    using s2 s3 by (simp add: update_def)
  then show ?thesis using g3 by simp
qed

lemma run_gas_held:
  assumes "\<forall>sm\<in>set sms. is_enabled sm \<and> \<not> gasPressed (carState sm) \<and> 0 < gasbrake_of sm"
    and "cruise_source self = cruiseGas" "\<not> first_loop self"
  shows "\<exists>s. run E self sms = Inr s \<and> cruise_source s = cruiseGas"
  using assms
proof (induction sms arbitrary: self)
  case Nil
  then show ?case by simp
next
  case (Cons sm sms)
  from Cons.prems obtain s1 where u: "update E self sm = Inr s1"
    and g: "cruise_source s1 = cruiseGas" "\<not> first_loop s1"
    using update_gas_held[of self sm E] by auto
  from Cons.IH[of s1] Cons.prems g obtain s where "run E s1 sms = Inr s \<and> cruise_source s = cruiseGas"
    by auto
  then show ?case using u by simp
qed

text \<open>
  C3, as stated, fails: the claim conditions only the cycles on the cruise path. From the
  planner that tracks a lead, a first cruise-path cycle with \<open>gasbrake = 0.3\<close> sets
  \<open>cruise_source\<close> to \<open>cruiseGas\<close>; a disabled cycle then resets it to \<open>cruiseCoast\<close>; the
  next cruise-path cycle, again with \<open>gasbrake = 0.3\<close>, leaves it at \<open>cruiseCoast\<close>.
\<close>

theorem gas_hysteresis_counterexample:
  "map_sum id cruise_source
     (run demo_ext demo_tracking [demo_sm pid 0.3 False no_lead]) = Inr cruiseGas \<and>
   \<not> is_enabled (demo_sm off 0.3 False no_lead) \<and>
   map_sum id first_loop
     (run demo_ext demo_tracking [demo_sm pid 0.3 False no_lead, demo_sm off 0.3 False no_lead])
     = Inr False \<and>
   is_enabled (demo_sm pid 0.3 False no_lead) \<and>
   \<not> gasPressed (carState (demo_sm pid 0.3 False no_lead)) \<and>
   0 < gasbrake_of (demo_sm pid 0.3 False no_lead) \<and>
   map_sum id cruise_source
     (run demo_ext demo_tracking
        [demo_sm pid 0.3 False no_lead, demo_sm off 0.3 False no_lead,
         demo_sm pid 0.3 False no_lead]) = Inr cruiseCoast"
  by (simp add: demo_defs upd_defs Let_def table_defs)

text \<open>
  C3, amended. Start from any planner state with \<open>cruise_source = cruiseGas\<close> that has
  completed its first cycle, whatever its \<open>source\<close>, and run an uninterrupted sequence of
  cycles that all take the cruise path (enabled, accelerator not pressed) with
  \<open>gasbrake > 0\<close>. Then every cycle completes, and after each one \<open>cruise_source\<close> is still
  \<open>cruiseGas\<close>, for every trajectory smoother and every lead tracker.
\<close>

theorem gas_hysteresis:
  assumes "cruise_source self = cruiseGas" and "\<not> first_loop self"
    and "\<forall>sm\<in>set sms. is_enabled sm \<and> \<not> gasPressed (carState sm) \<and> 0 < gasbrake_of sm"
  shows "\<forall>k\<le>length sms. \<exists>s. run E self (take k sms) = Inr s \<and> cruise_source s = cruiseGas"
proof (intro allI impI)
  fix k assume "k \<le> length sms"
  have "\<forall>sm\<in>set (take k sms). is_enabled sm \<and> \<not> gasPressed (carState sm) \<and> 0 < gasbrake_of sm"
    using assms(3) by (meson in_set_takeD)
  then show "\<exists>s. run E self (take k sms) = Inr s \<and> cruise_source s = cruiseGas"
    using run_gas_held assms(1,2) by blast
qed

theorem gas_hysteresis_witness:
  "cruise_source (demo_tracking\<lparr>cruise_source := cruiseGas\<rparr>) = cruiseGas \<and>
   \<not> first_loop (demo_tracking\<lparr>cruise_source := cruiseGas\<rparr>) \<and>
   is_enabled (demo_sm pid 0.3 False slow_lead) \<and>
   \<not> gasPressed (carState (demo_sm pid 0.3 False slow_lead)) \<and>
   0 < gasbrake_of (demo_sm pid 0.3 False slow_lead) \<and>
   is_enabled (demo_sm stopping 0.1 True no_lead) \<and>
   \<not> gasPressed (carState (demo_sm stopping 0.1 True no_lead)) \<and>
   0 < gasbrake_of (demo_sm stopping 0.1 True no_lead) \<and>
   map_sum id cruise_source
     (run demo_ext (demo_tracking\<lparr>cruise_source := cruiseGas\<rparr>)
        [demo_sm pid 0.3 False slow_lead, demo_sm stopping 0.1 True no_lead]) = Inr cruiseGas"
proof -
  let ?p = "demo_tracking\<lparr>cruise_source := cruiseGas\<rparr>"
  let ?a = "demo_sm pid 0.3 False slow_lead"
  let ?b = "demo_sm stopping 0.1 True no_lead"
  have g: "cruise_source ?p = cruiseGas" by simp
  have f: "\<not> first_loop ?p" by (simp add: demo_tracking_def)
  have a: "is_enabled ?a \<and> \<not> gasPressed (carState ?a) \<and> 0 < gasbrake_of ?a"
    by (simp add: is_enabled_def gasbrake_of_def demo_sm_def)
  have b: "is_enabled ?b \<and> \<not> gasPressed (carState ?b) \<and> 0 < gasbrake_of ?b"
    by (simp add: is_enabled_def gasbrake_of_def demo_sm_def)
  have h: "\<forall>sm\<in>set [?a, ?b]. is_enabled sm \<and> \<not> gasPressed (carState sm) \<and> 0 < gasbrake_of sm"
    using a b by simp
  have "\<exists>s. run demo_ext ?p (take 2 [?a, ?b]) = Inr s \<and> cruise_source s = cruiseGas"
    using gas_hysteresis[OF g f h, of demo_ext, rule_format, of 2] by simp
  then obtain s where "run demo_ext ?p [?a, ?b] = Inr s" "cruise_source s = cruiseGas"
    by auto
  then show ?thesis using g f a b by simp
qed

subsection \<open>Arbitration picks the slowest candidate\<close>

lemma solutions_cruise:
  assumes "is_cruise (cruise_source self)"
  shows "solutions self =
           (cruise_source self, v_cruise self) #
           (if prev_lead_status (self_mpc1 self) then [(mpc1, v_mpc (self_mpc1 self))] else []) @
           (if prev_lead_status (self_mpc2 self) then [(mpc2, v_mpc (self_mpc2 self))] else [])"
  using assms by (auto simp add: solutions_def is_cruise_def Let_def)

text \<open>
  The planner that \<open>update\<close> hands to \<open>choose_solution\<close> always has one of the three cruise
  variants in \<open>cruise_source\<close>.
\<close>

lemma arbitration_input_is_cruise:
  "update_cruise E self sm = Inr s1 \<Longrightarrow> is_cruise (cruise_source (update_mpcs E s1 sm))"
  using update_cruise_frame by fastforce

lemma reachable_is_cruise: "reachable E self \<Longrightarrow> is_cruise (cruise_source self)"
proof (induction rule: reachable.induct)
  case (reachable_init conf CP)
  show ?case by (simp add: Planner_init_def is_cruise_def)
next
  case (reachable_update self sm self')
  then show ?case using update_is_cruise by blast
qed

text \<open>
  C1. With \<open>enabled\<close> true and \<open>cruise_source\<close> one of the cruise variants, the candidates
  are the cruise candidate under \<open>cruise_source\<close>, followed by the candidate of each lead
  tracker that reports an active lead. \<open>choose_solution\<close> returns; the chosen \<open>source\<close> is a
  candidate, its speed is \<open>v_acc\<close> and no candidate is slower; if the cruise candidate is
  as slow as every other candidate (a tie included), the cruise candidate is chosen; and
  \<open>a_acc\<close> is the winner's acceleration.
\<close>

theorem arbitration_minimum:
  assumes "is_cruise (cruise_source self)"
  shows "solutions self =
           (cruise_source self, v_cruise self) #
           (if prev_lead_status (self_mpc1 self) then [(mpc1, v_mpc (self_mpc1 self))] else []) @
           (if prev_lead_status (self_mpc2 self) then [(mpc2, v_mpc (self_mpc2 self))] else []) \<and>
         (\<exists>s. choose_solution self sp True = Inr s \<and>
              (source s, v_acc s) \<in> set (solutions self) \<and>
              (\<forall>(k, v)\<in>set (solutions self). v_acc s \<le> v) \<and>
              ((\<forall>(k, v)\<in>set (solutions self). v_cruise self \<le> v) \<longrightarrow>
                 source s = cruise_source self) \<and>
              a_acc s = (if source s = mpc1 then a_mpc (self_mpc1 self)
                         else if source s = mpc2 then a_mpc (self_mpc2 self)
                         else a_cruise self))"
proof -
  note sol = solutions_cruise[OF assms]
  have c: "cruise_source self \<noteq> mpc1" "cruise_source self \<noteq> mpc2"
    using assms by (auto simp add: is_cruise_def)
  have "\<exists>s. choose_solution self sp True = Inr s \<and>
              (source s, v_acc s) \<in> set (solutions self) \<and>
              (\<forall>(k, v)\<in>set (solutions self). v_acc s \<le> v) \<and>
              ((\<forall>(k, v)\<in>set (solutions self). v_cruise self \<le> v) \<longrightarrow>
                 source s = cruise_source self) \<and>
              a_acc s = (if source s = mpc1 then a_mpc (self_mpc1 self)
                         else if source s = mpc2 then a_mpc (self_mpc2 self)
                         else a_cruise self)"
    unfolding sol using c
    by (cases "prev_lead_status (self_mpc1 self)"; cases "prev_lead_status (self_mpc2 self)")
       (auto simp add: choose_solution_def sol dict_min_key_def Let_def)
  then show ?thesis using sol by simp
qed

theorem arbitration_minimum_witness:
  "is_cruise (cruise_source (demo_tracking\<lparr>v_cruise := 15\<rparr>)) \<and>
   solutions (demo_tracking\<lparr>v_cruise := 15\<rparr>) = [(cruiseCoast, 15), (mpc1, 15)] \<and>
   map_sum id source (choose_solution (demo_tracking\<lparr>v_cruise := 15\<rparr>) 25 True) = Inr cruiseCoast \<and>
   map_sum id v_acc (choose_solution (demo_tracking\<lparr>v_cruise := 15\<rparr>) 25 True) = Inr 15 \<and>
   map_sum id a_acc (choose_solution (demo_tracking\<lparr>v_cruise := 15\<rparr>) 25 True) = Inr 0"
proof -
  let ?p = "demo_tracking\<lparr>v_cruise := 15\<rparr>"
  have h: "is_cruise (cruise_source ?p)"
    by (simp add: is_cruise_def demo_tracking_def)
  from arbitration_minimum[OF h, of 25]
  obtain s where sol: "solutions ?p = (cruise_source ?p, v_cruise ?p) #
           (if prev_lead_status (self_mpc1 ?p) then [(mpc1, v_mpc (self_mpc1 ?p))] else []) @
           (if prev_lead_status (self_mpc2 ?p) then [(mpc2, v_mpc (self_mpc2 ?p))] else [])"
    and s: "choose_solution ?p 25 True = Inr s"
    and m: "(source s, v_acc s) \<in> set (solutions ?p)"
    and t: "(\<forall>(k, v)\<in>set (solutions ?p). v_cruise ?p \<le> v) \<longrightarrow> source s = cruise_source ?p"
    and a: "a_acc s = (if source s = mpc1 then a_mpc (self_mpc1 ?p)
                         else if source s = mpc2 then a_mpc (self_mpc2 ?p)
                         else a_cruise ?p)"
    by blast
  have sol': "solutions ?p = [(cruiseCoast, 15), (mpc1, 15)]"
    using sol by (simp add: demo_tracking_def)
  have src: "source s = cruiseCoast" using t sol' by (simp add: demo_tracking_def)
  have v: "v_acc s = 15" using m sol' src by simp
  have a': "a_acc s = 0" using a src by (simp add: demo_tracking_def)
  show ?thesis using h sol' s src v a' by simp
qed

subsection \<open>Reselecting the cruise strategy\<close>

text \<open>
  C7. With coasting enabled, let the gas and brake candidates be what the smoother
  returns from the anchor (the measured state if the previous \<open>source\<close> was
  \<open>cruiseCoast\<close>). If \<open>gasbrake\<close> is exactly zero, \<open>cruise_source\<close> becomes \<open>cruiseBrake\<close> if
  \<open>a_brake \<le> a_coast\<close>, else \<open>cruiseGas\<close> if \<open>a_gas \<ge> a_coast\<close>, else \<open>cruiseCoast\<close>, and
  the returned pair is that candidate. If \<open>gasbrake\<close> is not zero, \<open>cruise_source\<close> is not
  reselected: it is what the lead-tracker rule left, and the returned pair is its
  candidate.
\<close>

theorem cruise_reselection:
  assumes "coast_enabled self"
    and "anchor = (if source self = cruiseCoast then (v_ego, a_ego)
                   else (v_acc_start self, a_acc_start self))"
    and "speed_smoother E (fst anchor) (snd anchor) sp (snd alim) (fst alim) (snd jerk) (fst jerk)
           LON_MPC_STEP = (v_gas, a_gas)"
    and "speed_smoother E (fst anchor) (snd anchor) (sp + COAST_SPEED E) (snd alim) (fst alim)
           (snd jerk) (fst jerk) LON_MPC_STEP = (v_brake, a_brake)"
  shows "(gasbrake = 0 \<longrightarrow>
            (\<exists>s. choose_cruise E self v_ego a_ego sp alim jerk gasbrake =
                    Inr (if a_brake \<le> a_ego then (v_brake, a_brake)
                         else if a_gas \<ge> a_ego then (v_gas, a_gas)
                         else (v_ego, a_ego), s) \<and>
                 cruise_source s = (if a_brake \<le> a_ego then cruiseBrake
                                    else if a_gas \<ge> a_ego then cruiseGas
                                    else cruiseCoast))) \<and>
         (gasbrake \<noteq> 0 \<longrightarrow>
            (\<forall>r s. choose_cruise E self v_ego a_ego sp alim jerk gasbrake = Inr (r, s) \<longrightarrow>
                 cruise_source s = (if source self = mpc1 \<or> source self = mpc2
                                    then (if gasbrake \<ge> 0 then cruiseGas else cruiseBrake)
                                    else cruise_source self) \<and>
                 r = (if cruise_source s = cruiseCoast then (v_ego, a_ego)
                      else if cruise_source s = cruiseGas then (v_gas, a_gas)
                      else (v_brake, a_brake))))"
  using assms
  by (cases "source self")
     (auto simp add: choose_cruise_def Let_def dict_get_def split: prod.splits if_splits option.splits)

theorem cruise_reselection_witness:
  "coast_enabled demo_tracking \<and>
   map_sum id fst (choose_cruise demo_ext demo_tracking 20 0.5 25 (-1, 1) (-1, 1) 0)
     = Inr (25, 1) \<and>
   map_sum id (\<lambda>r. cruise_source (snd r))
     (choose_cruise demo_ext demo_tracking 20 0.5 25 (-1, 1) (-1, 1) 0) = Inr cruiseGas \<and>
   map_sum id (\<lambda>r. cruise_source (snd r))
     (choose_cruise demo_ext (demo_tracking\<lparr>source := cruiseBrake\<rparr>) 20 0.5 25 (-1, 1) (-1, 1) 0.3)
     = Inr cruiseCoast"
proof -
  have c: "coast_enabled demo_tracking" "coast_enabled (demo_tracking\<lparr>source := cruiseBrake\<rparr>)"
    by (simp_all add: demo_tracking_def)
  have an: "(20, 0) = (if source demo_tracking = cruiseCoast then (20, 0.5)
                   else (v_acc_start demo_tracking, a_acc_start demo_tracking))"
    "(20, 0) = (if source (demo_tracking\<lparr>source := cruiseBrake\<rparr>) = cruiseCoast then (20, 0.5)
                   else (v_acc_start (demo_tracking\<lparr>source := cruiseBrake\<rparr>),
                         a_acc_start (demo_tracking\<lparr>source := cruiseBrake\<rparr>)))"
    by (simp_all add: demo_tracking_def)
  have g: "speed_smoother demo_ext (fst (20, 0)) (snd (20, 0)) 25 (snd (-1, 1)) (fst (-1, 1))
             (snd (-1, 1)) (fst (-1, 1)) LON_MPC_STEP = (25, 1)"
    by (simp add: demo_ext_def)
  have b: "speed_smoother demo_ext (fst (20, 0)) (snd (20, 0)) (25 + COAST_SPEED demo_ext)
             (snd (-1, 1)) (fst (-1, 1)) (snd (-1, 1)) (fst (-1, 1)) LON_MPC_STEP
           = (25 + COAST_SPEED demo_ext, 1)"
    by (simp add: demo_ext_def COAST_SPEED_def)
  note z = cruise_reselection[OF c(1) an(1) g b, of 0]
  note n = cruise_reselection[OF c(2) an(2) g b, of "0.3"]
  from z obtain s where s: "choose_cruise demo_ext demo_tracking 20 0.5 25 (-1, 1) (-1, 1) 0
       = Inr ((25, 1), s)" "cruise_source s = cruiseGas"
    by auto
  define s' where "s' = demo_tracking\<lparr>source := cruiseBrake\<rparr>"
  have s': "choose_cruise demo_ext (demo_tracking\<lparr>source := cruiseBrake\<rparr>) 20 0.5 25
              (-1, 1) (-1, 1) 0.3 = Inr ((20, 0.5), s')"
    by (simp add: s'_def choose_cruise_def demo_tracking_def demo_ext_def dict_get_def Let_def)
  have nz: "(0.3::real) \<noteq> 0" by simp
  from n nz s' have "cruise_source s' =
      (if source (demo_tracking\<lparr>source := cruiseBrake\<rparr>) = mpc1 \<or>
          source (demo_tracking\<lparr>source := cruiseBrake\<rparr>) = mpc2
       then (if (0.3::real) \<ge> 0 then cruiseGas else cruiseBrake)
       else cruise_source (demo_tracking\<lparr>source := cruiseBrake\<rparr>))"
    by blast
  then have "cruise_source s' = cruiseCoast" by (simp add: demo_tracking_def)
  then show ?thesis using c s s' by simp
qed

subsection \<open>The following curve\<close>

lemma following_vs_normal:
  "interp v A_CRUISE_MAX_BP A_CRUISE_MAX_V_FOLLOWING \<le> interp v A_CRUISE_MAX_BP A_CRUISE_MAX_V
     \<longleftrightarrow> v \<le> 40 / 3 \<or> 55 \<le> v"
  by (simp add: table_defs) (auto simp add: field_simps)

text \<open>
  C6, as stated, fails: with an accelerating, faster lead 25 m ahead and the car at
  20 m/s, the following curve gives 0.7, above the 0.5 of the Normal curve.
\<close>

theorem following_curve_counterexample:
  "status (leadOne (demo_sm pid 0 False fast_lead)) \<and>
   dRel (leadOne (demo_sm pid 0 False fast_lead)) < 30 \<and>
   vLeadK (leadOne (demo_sm pid 0 False fast_lead)) > vEgo (carState (demo_sm pid 0 False fast_lead)) \<and>
   aLeadK (leadOne (demo_sm pid 0 False fast_lead)) > 0 \<and>
   vEgo (carState (demo_sm pid 0 False fast_lead)) = 20 \<and>
   snd (calc_cruise_accel_limits 20 (is_following (demo_sm pid 0 False fast_lead)) 1) = 0.7 \<and>
   snd (calc_cruise_accel_limits 20 False 1) = 0.5"
  by (simp add: demo_sm_def fast_lead_def is_following_def calc_cruise_accel_limits_def table_defs)

text \<open>
  C6, amended. With a tracked lead within 30 m that is faster than the car and
  accelerating, the following flag is true and \<open>a_max\<close> is the following curve at the
  car's speed. It is at most the non-following Normal-mode value at the same speed exactly
  when the speed is at most 40/3 m/s or at least 55 m/s; in between it is larger.
\<close>

theorem following_curve:
  assumes "status (leadOne sm)" and "dRel (leadOne sm) < 30"
    and "vLeadK (leadOne sm) > vEgo (carState sm)" and "aLeadK (leadOne sm) > 0"
  shows "is_following sm \<and>
         snd (calc_cruise_accel_limits (vEgo (carState sm)) (is_following sm) accelMode)
           = interp (vEgo (carState sm)) A_CRUISE_MAX_BP A_CRUISE_MAX_V_FOLLOWING \<and>
         snd (calc_cruise_accel_limits (vEgo (carState sm)) False 1)
           = interp (vEgo (carState sm)) A_CRUISE_MAX_BP A_CRUISE_MAX_V \<and>
         (snd (calc_cruise_accel_limits (vEgo (carState sm)) (is_following sm) accelMode)
            \<le> snd (calc_cruise_accel_limits (vEgo (carState sm)) False 1)
          \<longleftrightarrow> vEgo (carState sm) \<le> 40 / 3 \<or> 55 \<le> vEgo (carState sm))"
proof -
  have f: "is_following sm" using assms by (simp add: is_following_def)
  have n: "A_CRUISE_MAX_V_MODE_LIST ! A_CRUISE_MAX_V_MODE_LIST_INDEX 1 = A_CRUISE_MAX_V"
    by (simp add: A_CRUISE_MAX_V_MODE_LIST_def A_CRUISE_MAX_V_MODE_LIST_INDEX_def)
  show ?thesis using f n following_vs_normal[of "vEgo (carState sm)"]
    by (simp add: calc_cruise_accel_limits_def)
qed

theorem following_curve_witness:
  "status (leadOne (demo_sm pid 0 False fast_lead)) \<and>
   dRel (leadOne (demo_sm pid 0 False fast_lead)) < 30 \<and>
   vLeadK (leadOne (demo_sm pid 0 False fast_lead)) > vEgo (carState (demo_sm pid 0 False fast_lead)) \<and>
   aLeadK (leadOne (demo_sm pid 0 False fast_lead)) > 0 \<and>
   is_following (demo_sm pid 0 False fast_lead) \<and>
   \<not> snd (calc_cruise_accel_limits 20 (is_following (demo_sm pid 0 False fast_lead)) 0)
       \<le> snd (calc_cruise_accel_limits 20 False 1)"
proof -
  let ?sm = "demo_sm pid 0 False fast_lead"
  have h: "status (leadOne ?sm)" "dRel (leadOne ?sm) < 30"
    "vLeadK (leadOne ?sm) > vEgo (carState ?sm)" "aLeadK (leadOne ?sm) > 0"
    by (simp_all add: demo_sm_def fast_lead_def)
  have v: "vEgo (carState ?sm) = 20" by (simp add: demo_sm_def)
  note fc = following_curve[OF h, of 0, unfolded v]
  have n: "\<not> ((20::real) \<le> 40 / 3 \<or> (55::real) \<le> 20)" by simp
  from fc n have "\<not> snd (calc_cruise_accel_limits 20 (is_following ?sm) 0)
       \<le> snd (calc_cruise_accel_limits 20 False 1)" by blast
  moreover from fc have "is_following ?sm" by blast
  ultimately show ?thesis using h by blast
qed

subsection \<open>The limit in turns\<close>

lemma fl_in_range: "in_range x \<Longrightarrow> fl x = Fin x"
  by (auto simp add: in_range_def fl_def DBL_OVERFLOW_def DBL_UNDERFLOW_def)

lemma DBL_OVERFLOW_pos: "0 < DBL_OVERFLOW"
  by (simp add: DBL_OVERFLOW_def)

lemma in_range_no_overflow: "in_range x \<Longrightarrow> \<not> DBL_OVERFLOW \<le> x"
  using DBL_OVERFLOW_pos by (auto simp add: in_range_def)

lemma in_range_moderate: "1 / 10 ^ 300 \<le> \<bar>x\<bar> \<Longrightarrow> \<bar>x\<bar> \<le> 10 ^ 305 \<Longrightarrow> in_range x"
proof -
  assume a: "1 / 10 ^ 300 \<le> \<bar>x\<bar>" and b: "\<bar>x\<bar> \<le> 10 ^ 305"
  have u: "DBL_UNDERFLOW < 1 / 10 ^ 300" by (simp add: DBL_UNDERFLOW_def)
  have o: "(10::real) ^ 305 < DBL_OVERFLOW" by (simp add: DBL_OVERFLOW_def)
  show ?thesis using a b u o by (simp add: in_range_def)
qed

lemma py_div_zero: "py_div x (Fin 0) = Inl ZeroDivisionError"
  by (cases x) simp_all

lemma sqrt_clamped: "\<exists>r. math_sqrt (py_max x (Fin 0)) = Inr r"
  by (cases x) (simp_all add: py_max_def)

lemma a_total_max_bounds:
  "17 / 10 \<le> (if slowOnCurves conf \<noteq> 0 then interp v A_TOTAL_MAX_BP_SOC A_TOTAL_MAX_V_SOC
                else interp v A_TOTAL_MAX_BP A_TOTAL_MAX_V) \<and>
   (if slowOnCurves conf \<noteq> 0 then interp v A_TOTAL_MAX_BP_SOC A_TOTAL_MAX_V_SOC
                else interp v A_TOTAL_MAX_BP A_TOTAL_MAX_V) \<le> 5"
  using interp_between[of A_TOTAL_MAX_BP_SOC A_TOTAL_MAX_V_SOC "17/10" 5 v]
    interp_between[of A_TOTAL_MAX_BP A_TOTAL_MAX_V "17/10" 5 v]
  by (simp add: table_defs)

lemma py_pow2_moderate:
  assumes "17 / 10 \<le> t" "t \<le> 5"
  shows "py_pow2 (Fin t) = Inr (Fin (t\<^sup>2))"
proof -
  have "t\<^sup>2 \<le> 5\<^sup>2" using assms by (intro power_mono) simp_all
  moreover have "1\<^sup>2 \<le> t\<^sup>2" using assms by (intro power_mono) simp_all
  ultimately have r: "in_range (t\<^sup>2)" by (intro in_range_moderate) simp_all
  show ?thesis using fl_in_range[OF r] in_range_no_overflow[OF r] by simp
qed

lemma pi_bounds: "2 \<le> pi" "pi \<le> 4"
  using pi_ge_two pi_less_4 by simp_all

lemma turn_limit_zero_product:
  "limit_accel_in_turns demo_conf 20 5 (-1, 1) (demo_CP\<lparr>steerRatio := 0\<rparr>) = Inl ZeroDivisionError"
proof -
  have r: "in_range ((20::real)\<^sup>2)" by (intro in_range_moderate) simp_all
  have v2: "py_pow2 (Fin 20) = Inr (Fin (20\<^sup>2))"
    using fl_in_range[OF r] in_range_no_overflow[OF r] by simp
  have den: "py_mul (Fin (steerRatio (demo_CP\<lparr>steerRatio := 0\<rparr>)))
                    (Fin (wheelbase (demo_CP\<lparr>steerRatio := 0\<rparr>))) = Fin 0"
    using fl_in_range[of 0] by (simp add: in_range_def demo_CP_def)
  show ?thesis
    unfolding limit_accel_in_turns_def Let_def v2 sum.case den py_div_zero
    by (rule refl)
qed

lemma turn_limit_large_angle:
  "limit_accel_in_turns demo_conf 20 (10 ^ 300) (-1, 1) demo_CP = Inl OverflowError"
proof -
  define a_y :: real where "a_y = 20\<^sup>2 * 10 ^ 300 * DEG_TO_RAD / (steerRatio demo_CP * wheelbase demo_CP)"
  have r: "in_range ((20::real)\<^sup>2)" by (intro in_range_moderate) simp_all
  have v2: "py_pow2 (Fin 20) = Inr (Fin (20\<^sup>2))"
    using fl_in_range[OF r] in_range_no_overflow[OF r] by simp
  have r2: "in_range ((20::real)\<^sup>2 * 10 ^ 300)" by (intro in_range_moderate) simp_all
  have d: "DEG_TO_RAD \<ge> 1 / 90" "DEG_TO_RAD \<le> 1 / 45"
    using pi_bounds by (simp_all add: DEG_TO_RAD_def)
  have r3: "in_range ((20::real)\<^sup>2 * 10 ^ 300 * DEG_TO_RAD)"
  proof (intro in_range_moderate)
    have "(20::real)\<^sup>2 * 10 ^ 300 * DEG_TO_RAD \<ge> 20\<^sup>2 * 10 ^ 300 * (1 / 90)"
      using d(1) by (intro mult_left_mono) simp_all
    then show "1 / 10 ^ 300 \<le> \<bar>(20::real)\<^sup>2 * 10 ^ 300 * DEG_TO_RAD\<bar>" by simp
    have "(20::real)\<^sup>2 * 10 ^ 300 * DEG_TO_RAD \<le> 20\<^sup>2 * 10 ^ 300 * (1 / 45)"
      using d(2) by (intro mult_left_mono) simp_all
    moreover have "0 \<le> (20::real)\<^sup>2 * 10 ^ 300 * DEG_TO_RAD" using d(1) by simp
    ultimately show "\<bar>(20::real)\<^sup>2 * 10 ^ 300 * DEG_TO_RAD\<bar> \<le> 10 ^ 305" by simp
  qed
  have num: "py_mul (py_mul (Fin (20\<^sup>2)) (Fin (10 ^ 300))) (Fin DEG_TO_RAD)
               = Fin (20\<^sup>2 * 10 ^ 300 * DEG_TO_RAD)"
    using r2 r3 by (simp add: fl_in_range)
  have rd: "in_range (steerRatio demo_CP * wheelbase demo_CP)"
    by (intro in_range_moderate) (simp_all add: demo_CP_def)
  have den: "py_mul (Fin (steerRatio demo_CP)) (Fin (wheelbase demo_CP))
               = Fin (steerRatio demo_CP * wheelbase demo_CP)"
    using rd by (simp add: fl_in_range)
  have ay_eq: "a_y = 20\<^sup>2 * 10 ^ 300 * DEG_TO_RAD / (81 / 2)"
    by (simp add: a_y_def demo_CP_def)
  have lo: "10 ^ 298 \<le> a_y"
  proof -
    have "(20::real)\<^sup>2 * 10 ^ 300 * (1 / 90) / (81 / 2) \<le> a_y"
      unfolding ay_eq using d(1) by (intro divide_right_mono mult_left_mono) simp_all
    moreover have "(10::real) ^ 298 \<le> 20\<^sup>2 * 10 ^ 300 * (1 / 90) / (81 / 2)" by simp
    ultimately show ?thesis by linarith
  qed
  have hi: "a_y \<le> 10 ^ 302"
  proof -
    have "a_y \<le> (20::real)\<^sup>2 * 10 ^ 300 * (1 / 45) / (81 / 2)"
      unfolding ay_eq using d(2) by (intro divide_right_mono mult_left_mono) simp_all
    moreover have "20\<^sup>2 * 10 ^ 300 * (1 / 45) / (81 / 2) \<le> (10::real) ^ 302" by simp
    ultimately show ?thesis by linarith
  qed
  have ra: "in_range a_y" using lo hi by (intro in_range_moderate) simp_all
  have ay: "py_div (Fin (20\<^sup>2 * 10 ^ 300 * DEG_TO_RAD)) (Fin (steerRatio demo_CP * wheelbase demo_CP))
              = Inr (Fin a_y)"
    using ra by (simp add: fl_in_range a_y_def demo_CP_def)
  have "(10 ^ 298)\<^sup>2 \<le> a_y\<^sup>2" using lo by (intro power_mono) simp_all
  moreover have "DBL_OVERFLOW \<le> ((10::real) ^ 298)\<^sup>2" by (simp add: DBL_OVERFLOW_def)
  ultimately have "DBL_OVERFLOW \<le> a_y\<^sup>2" by linarith
  then have y2: "py_pow2 (Fin a_y) = Inl OverflowError" by simp
  have t2: "py_pow2 (Fin (interp 20 A_TOTAL_MAX_BP A_TOTAL_MAX_V))
              = Inr (Fin ((interp 20 A_TOTAL_MAX_BP A_TOTAL_MAX_V)\<^sup>2))"
    using a_total_max_bounds[of demo_conf 20] py_pow2_moderate by (simp add: demo_conf_def)
  have atm: "(if slowOnCurves demo_conf \<noteq> 0 then interp 20 A_TOTAL_MAX_BP_SOC A_TOTAL_MAX_V_SOC
              else interp 20 A_TOTAL_MAX_BP A_TOTAL_MAX_V) = interp 20 A_TOTAL_MAX_BP A_TOTAL_MAX_V"
    by (simp add: demo_conf_def)
  show ?thesis
    unfolding limit_accel_in_turns_def Let_def atm v2 sum.case num den ay t2 y2
    by (rule refl)
qed

text \<open>
  The clamp of the radicand does what it is there for: \<open>math.sqrt\<close> never raises, for any
  input.
\<close>

lemma turn_limit_no_value_error:
  "limit_accel_in_turns conf v_ego angle_steers a_target CP \<noteq> Inl ValueError"
proof -
  have p: "\<And>x. py_pow2 x \<noteq> Inl ValueError"
    subgoal for x by (cases x) simp_all
    done
  have d: "\<And>x y. py_div x y \<noteq> Inl ValueError"
    subgoal for x y by (cases x; cases y) simp_all
    done
  have s: "\<And>x. math_sqrt (py_max x (Fin 0)) \<noteq> Inl ValueError"
    subgoal for x using sqrt_clamped[of x] by auto
    done
  show ?thesis
    unfolding limit_accel_in_turns_def Let_def
    using p d s
    by (auto split: sum.splits
          simp del: py_pow2.simps py_mul.simps py_div.simps py_sub.simps math_sqrt.simps)
qed

text \<open>
  C8, as stated, fails: the function is not total. With a steer ratio of zero the division
  raises \<open>ZeroDivisionError\<close>; with a steering angle of \<open>10^300\<close> degrees at 20 m/s the
  lateral acceleration is finite but its square overflows, and \<open>**\<close> raises
  \<open>OverflowError\<close>.
\<close>

theorem turn_limit_counterexample:
  "limit_accel_in_turns demo_conf 20 5 (-1, 1) (demo_CP\<lparr>steerRatio := 0\<rparr>) = Inl ZeroDivisionError \<and>
   limit_accel_in_turns demo_conf 20 (10 ^ 300) (-1, 1) demo_CP = Inl OverflowError"
  using turn_limit_zero_product turn_limit_large_angle by simp

text \<open>
  C8, amended. For every speed, steering angle, steer ratio, wheelbase and bound pair for
  which the product of steer ratio and wheelbase is not zero and every float operation of
  the two lines stays in range (no result overflows, no nonzero result underflows to
  zero), \<open>limit_accel_in_turns\<close> returns \<open>(a_target_min, min(a_target_max, a_x_allowed))\<close>
  with \<open>a_x_allowed\<close> the square root of the larger of 0 and the square of \<open>a_total_max\<close>
  minus the square of \<open>a_y\<close>, where \<open>a_y\<close> is the squared speed times the angle in radians
  over the product of steer ratio and wheelbase, and \<open>a_x_allowed \<ge> 0\<close>.
\<close>

theorem turn_limit:
  assumes "a_total_max = (if slowOnCurves conf \<noteq> 0
                          then interp v_ego A_TOTAL_MAX_BP_SOC A_TOTAL_MAX_V_SOC
                          else interp v_ego A_TOTAL_MAX_BP A_TOTAL_MAX_V)"
    and "a_y = v_ego\<^sup>2 * angle_steers * DEG_TO_RAD / (steerRatio CP * wheelbase CP)"
    and "a_x_allowed = sqrt (max (a_total_max\<^sup>2 - a_y\<^sup>2) 0)"
    and "steerRatio CP * wheelbase CP \<noteq> 0"
    and "in_range (v_ego\<^sup>2)"
    and "in_range (v_ego\<^sup>2 * angle_steers)"
    and "in_range (v_ego\<^sup>2 * angle_steers * DEG_TO_RAD)"
    and "in_range (steerRatio CP * wheelbase CP)"
    and "in_range a_y"
    and "in_range (a_y\<^sup>2)"
    and "in_range (a_total_max\<^sup>2 - a_y\<^sup>2)"
  shows "limit_accel_in_turns conf v_ego angle_steers a_target CP
           = Inr (fst a_target, Fin (min (snd a_target) a_x_allowed)) \<and>
         0 \<le> a_x_allowed"
proof -
  note ov = in_range_no_overflow
  have v2: "py_pow2 (Fin v_ego) = Inr (Fin (v_ego\<^sup>2))"
    using assms(5) ov fl_in_range by simp
  have num: "py_mul (py_mul (Fin (v_ego\<^sup>2)) (Fin angle_steers)) (Fin DEG_TO_RAD)
               = Fin (v_ego\<^sup>2 * angle_steers * DEG_TO_RAD)"
    using assms(6,7) by (simp add: fl_in_range)
  have den: "py_mul (Fin (steerRatio CP)) (Fin (wheelbase CP)) = Fin (steerRatio CP * wheelbase CP)"
    using assms(8) by (simp add: fl_in_range)
  have ay: "py_div (Fin (v_ego\<^sup>2 * angle_steers * DEG_TO_RAD)) (Fin (steerRatio CP * wheelbase CP))
              = Inr (Fin a_y)"
    using assms(2,4,9) by (simp add: fl_in_range)
  have t2: "py_pow2 (Fin a_total_max) = Inr (Fin (a_total_max\<^sup>2))"
    using a_total_max_bounds[of conf v_ego] assms(1) py_pow2_moderate by simp
  have y2: "py_pow2 (Fin a_y) = Inr (Fin (a_y\<^sup>2))"
    using assms(10) ov fl_in_range by simp
  have sub: "py_sub (Fin (a_total_max\<^sup>2)) (Fin (a_y\<^sup>2)) = Fin (a_total_max\<^sup>2 - a_y\<^sup>2)"
    using assms(11) by (simp add: fl_in_range)
  have sq: "math_sqrt (py_max (Fin (a_total_max\<^sup>2 - a_y\<^sup>2)) (Fin 0)) = Inr (Fin a_x_allowed)"
    using assms(3) by (simp add: py_max_def max_def)
  have mn: "py_min (Fin (snd a_target)) (Fin a_x_allowed) = Fin (min (snd a_target) a_x_allowed)"
    by (simp add: py_min_def min_def)
  have "limit_accel_in_turns conf v_ego angle_steers a_target CP
           = Inr (fst a_target, Fin (min (snd a_target) a_x_allowed))"
    unfolding limit_accel_in_turns_def Let_def assms(1)[symmetric]
    by (simp add: v2 num den ay t2 y2 sub sq mn
          del: py_pow2.simps py_mul.simps py_div.simps py_sub.simps math_sqrt.simps)
  moreover have "0 \<le> a_x_allowed" using assms(3) by simp
  ultimately show ?thesis by simp
qed

theorem turn_limit_witness:
  "steerRatio demo_CP * wheelbase demo_CP \<noteq> 0 \<and>
   in_range (20\<^sup>2 * 90 * DEG_TO_RAD / (steerRatio demo_CP * wheelbase demo_CP)) \<and>
   limit_accel_in_turns demo_conf 20 90 (-1, 1) demo_CP = Inr (-1, Fin 0)"
proof -
  define a_total_max :: real where "a_total_max = (if slowOnCurves demo_conf \<noteq> 0
                        then interp 20 A_TOTAL_MAX_BP_SOC A_TOTAL_MAX_V_SOC
                        else interp 20 A_TOTAL_MAX_BP A_TOTAL_MAX_V)"
  define a_y :: real where "a_y = 20\<^sup>2 * 90 * DEG_TO_RAD / (steerRatio demo_CP * wheelbase demo_CP)"
  define a_x_allowed where "a_x_allowed = sqrt (max (a_total_max\<^sup>2 - a_y\<^sup>2) 0)"
  have nz: "steerRatio demo_CP * wheelbase demo_CP \<noteq> 0" by (simp add: demo_CP_def)
  have d: "DEG_TO_RAD \<ge> 1 / 90" "DEG_TO_RAD \<le> 1 / 45"
    using pi_bounds by (simp_all add: DEG_TO_RAD_def)
  have r1: "in_range ((20::real)\<^sup>2)" by (intro in_range_moderate) simp_all
  have r2: "in_range ((20::real)\<^sup>2 * 90)" by (intro in_range_moderate) simp_all
  have r3: "in_range ((20::real)\<^sup>2 * 90 * DEG_TO_RAD)"
    using d by (intro in_range_moderate) simp_all
  have r4: "in_range (steerRatio demo_CP * wheelbase demo_CP)"
    by (intro in_range_moderate) (simp_all add: demo_CP_def)
  have ay_eq: "a_y = 36000 * DEG_TO_RAD / (81 / 2)" by (simp add: a_y_def demo_CP_def)
  have lo: "9 \<le> a_y" unfolding ay_eq using d(1) by simp
  have hi: "a_y \<le> 20" unfolding ay_eq using d(2) by simp
  have r5: "in_range a_y" using lo hi by (intro in_range_moderate) simp_all
  have sq: "9\<^sup>2 \<le> a_y\<^sup>2" "a_y\<^sup>2 \<le> 20\<^sup>2"
    using lo hi by (intro power_mono; simp)+
  have r6: "in_range (a_y\<^sup>2)" using sq by (intro in_range_moderate) simp_all
  have t: "a_total_max = 39 / 10" by (simp add: a_total_max_def demo_conf_def table_defs)
  have diff: "a_total_max\<^sup>2 - a_y\<^sup>2 \<le> - 60" "- 400 \<le> a_total_max\<^sup>2 - a_y\<^sup>2"
    using sq by (simp_all add: t power2_eq_square)
  have r7: "in_range (a_total_max\<^sup>2 - a_y\<^sup>2)" using diff by (intro in_range_moderate) simp_all
  have x: "a_x_allowed = 0" using diff by (simp add: a_x_allowed_def max_def)
  from turn_limit[OF a_total_max_def a_y_def a_x_allowed_def nz r1 r2 r3 r4 r5 r6 r7, of "(-1, 1)"]
  show ?thesis using nz r5 x by (simp add: a_y_def)
qed

end
